theory Spec2Isabelle
  imports Complex_Main
begin

section \<open>Reconstruction of a 3D antenna pattern from two slices\<close>

text \<open>
  A shallow embedding of \<^verbatim>\<open>patternFromSlices.py\<close> and \<^verbatim>\<open>msiread.py\<close>.
  A numpy array of floats is a \<^typ>\<open>real list\<close>, a two-dimensional array is the list
  of its rows. Arithmetic is exact: rounding, overflow, infinities and NaN payloads of
  IEEE doubles are not part of the model. The one non-finite effect the code handles
  itself, a division by zero in the cross-weighted formula, is modelled by a cell of type
  \<^typ>\<open>real option\<close>, where \<open>None\<close> stands for a value that is not a finite number.
  Every \<^verbatim>\<open>raise\<close> of the source, and every exception a numpy call raises on the
  way, is a value \<open>Inl e\<close>.
\<close>

subsection \<open>Errors and warnings\<close>

datatype slice_name = Vertical_slice | Horizontal_slice

text \<open>
  All failures of \<^verbatim>\<open>patternFromSlices.py\<close> are Python \<^verbatim>\<open>ValueError\<close>s that differ in
  their message; the constructors name the message.
  \<^item> \<open>DimensionMismatch\<close>: "Dimensions of ... do not match."
  \<^item> \<open>InconsistentDuplicateAngle az_or_el a\<close>: "Repeated angles with unequal values in ...: a"
  \<^item> \<open>NoBoresightCoverage s\<close>: "No angles near boresight in ... slice"
  \<^item> \<open>BoresightNotNearPeak s\<close>: "... slice gain at boresight exceeds tolerance."
  \<^item> \<open>SliceIntersectionMismatch\<close>: "Gain difference at slice intersection exceeds tolerance."
  \<^item> \<open>UnknownMethod m\<close>: "Unknown method: m"
  \<^item> \<open>EmptyReduction\<close>: numpy's ValueError for \<^verbatim>\<open>np.min\<close>/\<^verbatim>\<open>np.max\<close> of an empty array
  \<^item> \<open>IndexError\<close>: an index or a boolean mask that does not fit the array
  \<^item> \<open>UnboundLocal\<close>: a local variable read before any assignment
\<close>

datatype error =
    DimensionMismatch
  | InconsistentDuplicateAngle string real
  | NoBoresightCoverage slice_name
  | BoresightNotNearPeak slice_name
  | SliceIntersectionMismatch
  | UnknownMethod string
  | EmptyReduction
  | IndexError
  | UnboundLocal

datatype warning = SliceIntersectionDivergence

subsection \<open>The numpy primitives the code uses\<close>

text \<open>\<^verbatim>\<open>np.mod(x, m)\<close>: the remainder with the sign of the divisor.\<close>

definition np_mod :: "real \<Rightarrow> real \<Rightarrow> real" where
  "np_mod x m = x - m * of_int \<lfloor>x / m\<rfloor>"

text \<open>\<^verbatim>\<open>np.round\<close>: to the nearest integer, a tie to the even neighbour.\<close>

definition np_round :: "real \<Rightarrow> real" where
  "np_round x =
     (let f = \<lfloor>x\<rfloor>; d = x - of_int f
      in if d < 1 / 2 then of_int f
         else if 1 / 2 < d then of_int (f + 1)
         else if even f then of_int f else of_int (f + 1))"

text \<open>
  \<^verbatim>\<open>np.max\<close> and \<^verbatim>\<open>np.min\<close> of a non-empty array (every caller below tests for the
  empty array first, where numpy raises).
\<close>

definition np_max :: "real list \<Rightarrow> real" where
  "np_max xs = fold max (tl xs) (hd xs)"

definition np_min :: "real list \<Rightarrow> real" where
  "np_min xs = fold min (tl xs) (hd xs)"

text \<open>\<^verbatim>\<open>np.argmin\<close>: the first index that holds the minimum.\<close>

definition np_argmin :: "real list \<Rightarrow> nat" where
  "np_argmin xs = length (takeWhile (\<lambda>x. x \<noteq> np_min xs) xs)"

text \<open>\<^verbatim>\<open>np.unique\<close>: the distinct values, ascending.\<close>

definition np_unique :: "real list \<Rightarrow> real list" where
  "np_unique xs = sort (remdups xs)"

text \<open>\<^verbatim>\<open>a[mask]\<close> for a boolean mask of the length of \<open>a\<close>.\<close>

definition mask_select :: "'a list \<Rightarrow> bool list \<Rightarrow> 'a list" where
  "mask_select xs msk = map fst (filter snd (zip xs msk))"

text \<open>
  \<^verbatim>\<open>np.meshgrid(x, y)\<close> with its default indexing \<^verbatim>\<open>'xy'\<close>: both results have
  \<open>length y\<close> rows and \<open>length x\<close> columns; the first repeats \<open>x\<close> in every row, the
  second holds \<open>y ! j\<close> throughout row \<open>j\<close>.
\<close>

definition np_meshgrid :: "real list \<Rightarrow> real list \<Rightarrow> real list list \<times> real list list" where
  "np_meshgrid x y = (replicate (length y) x, map (\<lambda>v. replicate (length x) v) y)"

subsection \<open>check\_repeated\_points\<close>

text \<open>
  The gains of the samples whose rounded angle is \<open>u\<close>: \<^verbatim>\<open>vals[indices == i]\<close>, where
  \<open>indices\<close> is the inverse index of \<^verbatim>\<open>np.unique\<close> and \<open>u\<close> its \<open>i\<close>-th value.
\<close>

definition group_vals :: "real list \<Rightarrow> real list \<Rightarrow> real \<Rightarrow> real list" where
  "group_vals vals angles u = mask_select vals (map (\<lambda>a. np_round a = u) angles)"

definition check_repeated_points :: "real list \<Rightarrow> real list \<Rightarrow> string \<Rightarrow> error + unit" where
  "check_repeated_points vals angles az_or_el =
     (let unique_angles = np_unique (map np_round angles)
      in if unique_angles \<noteq> [] \<and> length vals \<noteq> length angles then Inl IndexError
         else
           let repeated_vals =
                 map (\<lambda>u. 1 < length (np_unique (group_vals vals angles u))) unique_angles
           in if list_ex id repeated_vals
              then Inl (InconsistentDuplicateAngle az_or_el
                          (hd (mask_select unique_angles repeated_vals)))
              else Inr ())"

subsection \<open>check\_reconstruction\_requirements\<close>

text \<open>Lines 98 and 99: \<^verbatim>\<open>np.min(np.abs(np.mod(angles - bs, 360)))\<close>.\<close>

definition min_from_bs :: "real list \<Rightarrow> real \<Rightarrow> real" where
  "min_from_bs angles bs = np_min (map (\<lambda>a. \<bar>np_mod (a - bs) 360\<bar>) angles)"

text \<open>The index \<^verbatim>\<open>np.argmin(np.abs(angles - bs))\<close> of lines 107 to 116.\<close>

definition bs_index :: "real list \<Rightarrow> real \<Rightarrow> nat" where
  "bs_index angles bs = np_argmin (map (\<lambda>a. \<bar>a - bs\<bar>) angles)"

definition check_reconstruction_requirements ::
  "real list \<Rightarrow> real list \<Rightarrow> real list \<Rightarrow> real list \<Rightarrow> real \<Rightarrow> real \<Rightarrow> real \<times> real
     \<Rightarrow> error + warning list" where
  "check_reconstruction_requirements vert_slice theta horiz_slice phi
       tol_nearest_angle_from_boresight tol_gain_max_vs_boresight
       tol_gain_diff_at_slice_intersect =
     (let phi_bs = 0; theta_bs = 90
      in if theta = [] then Inl EmptyReduction
         else if phi = [] then Inl EmptyReduction
         else if min_from_bs theta theta_bs > tol_nearest_angle_from_boresight
           then Inl (NoBoresightCoverage Vertical_slice)
         else if min_from_bs phi phi_bs > tol_nearest_angle_from_boresight
           then Inl (NoBoresightCoverage Horizontal_slice)
         else if vert_slice = [] then Inl EmptyReduction
         else if \<not> bs_index theta theta_bs < length vert_slice then Inl IndexError
         else if np_max vert_slice - vert_slice ! bs_index theta theta_bs
                   > tol_gain_max_vs_boresight
           then Inl (BoresightNotNearPeak Vertical_slice)
         else if horiz_slice = [] then Inl EmptyReduction
         else if \<not> bs_index phi phi_bs < length horiz_slice then Inl IndexError
         else if np_max horiz_slice - horiz_slice ! bs_index phi phi_bs
                   > tol_gain_max_vs_boresight
           then Inl (BoresightNotNearPeak Horizontal_slice)
         else if \<bar>vert_slice ! bs_index theta theta_bs - horiz_slice ! bs_index phi phi_bs\<bar>
                   > snd tol_gain_diff_at_slice_intersect
           then Inl SliceIntersectionMismatch
         else if \<bar>vert_slice ! bs_index theta theta_bs - horiz_slice ! bs_index phi phi_bs\<bar>
                   > fst tol_gain_diff_at_slice_intersect
           then Inr [SliceIntersectionDivergence]
         else Inr [])"

subsection \<open>preprocess\_data\<close>

definition preprocess_data ::
  "real list \<Rightarrow> real list \<Rightarrow> real list \<Rightarrow> real list \<Rightarrow> string
     \<Rightarrow> error + (real list list \<times> real list \<times> real list list \<times> real list)" where
  "preprocess_data vert_slice_norm theta horiz_slice_norm phi method =
     (let theta_mod360 = map (\<lambda>t. np_mod t 360) theta;
          phi_mod360 = map (\<lambda>p. np_mod p 360) phi
      in if method \<notin> {''Summing'', ''CrossWeighted''} then Inl UnboundLocal
         else
           let idx_theta = map (\<lambda>t. t \<le> 180) theta_mod360;
               idx_phi = [0..<length phi];
               theta_out = mask_select theta idx_theta;
               phi_out = map (\<lambda>i. phi ! i) idx_phi
           in if length vert_slice_norm \<noteq> length idx_theta then Inl IndexError
              else if length horiz_slice_norm < length phi then Inl IndexError
              else
                let (vert_mesh_log, horiz_mesh_log) =
                      np_meshgrid (mask_select vert_slice_norm idx_theta)
                                  (map (\<lambda>i. horiz_slice_norm ! i) idx_phi)
                in Inr (vert_mesh_log, theta_out, horiz_mesh_log, phi_out))"

subsection \<open>The two combiners\<close>

text \<open>
  The array expressions of lines 60 and 64 to 69 act cell by cell. A cell of the result
  is \<open>Some r\<close> for the number \<open>r\<close>, or \<open>None\<close> where numpy's division by zero leaves an
  infinity or a NaN. The exponent \<open>k\<close> (\<^verbatim>\<open>cross_weighted_normalization\<close>, default 2) is a
  natural number. The arithmetic is exact: the sum \<open>w1^k + w2^k\<close> is zero only where it
  is zero as a real number. In double precision the same sum is also \<open>0.0\<close> where it
  underflows, and there the source divides by zero although this model does not; the
  model says nothing about such cells.
\<close>

definition summing_cell :: "real \<Rightarrow> real \<Rightarrow> real option" where
  "summing_cell V H = Some (V + H)"

definition mesh_lin :: "real \<Rightarrow> real" where
  "mesh_lin X = 10 powr (X / 10)"

definition cw_w1 :: "real \<Rightarrow> real \<Rightarrow> real" where
  "cw_w1 V H = mesh_lin V * (1 - mesh_lin H)"

definition cw_w2 :: "real \<Rightarrow> real \<Rightarrow> real" where
  "cw_w2 V H = mesh_lin H * (1 - mesh_lin V)"

definition cw_denominator :: "nat \<Rightarrow> real \<Rightarrow> real \<Rightarrow> real" where
  "cw_denominator k V H = root 3 (cw_w1 V H ^ k + cw_w2 V H ^ k)"

definition cw_quotient :: "nat \<Rightarrow> real \<Rightarrow> real \<Rightarrow> real option" where
  "cw_quotient k V H =
     (if cw_denominator k V H = 0 then None
      else Some ((H * cw_w1 V H + V * cw_w2 V H) / cw_denominator k V H))"

definition cross_weighted_cell :: "nat \<Rightarrow> real \<Rightarrow> real \<Rightarrow> real option" where
  "cross_weighted_cell k V H =
     (if cw_w1 V H = 0 \<and> cw_w2 V H = 0 then Some 0 else cw_quotient k V H)"

definition grid_map2 :: "(real \<Rightarrow> real \<Rightarrow> real option) \<Rightarrow> real list list \<Rightarrow> real list list
     \<Rightarrow> real option list list" where
  "grid_map2 f A B = map2 (map2 f) A B"

definition summing :: "real list list \<Rightarrow> real list list \<Rightarrow> real option list list" where
  "summing vert_mesh_log horiz_mesh_log = grid_map2 summing_cell vert_mesh_log horiz_mesh_log"

definition cross_weighted ::
  "nat \<Rightarrow> real list list \<Rightarrow> real list list \<Rightarrow> real option list list" where
  "cross_weighted k vert_mesh_log horiz_mesh_log =
     grid_map2 (cross_weighted_cell k) vert_mesh_log horiz_mesh_log"

subsection \<open>pattern\_from\_slices\<close>

text \<open>Lines 53 to 55 and line 74.\<close>

definition max_directivity :: "real list \<Rightarrow> real list \<Rightarrow> real" where
  "max_directivity vert_slice horiz_slice = max (np_max vert_slice) (np_max horiz_slice)"

definition normalize_slice :: "real \<Rightarrow> real list \<Rightarrow> real list" where
  "normalize_slice m slice = map (\<lambda>x. x - m) slice"

definition denormalize :: "real \<Rightarrow> real option list list \<Rightarrow> real option list list" where
  "denormalize m pat3D = map (map (map_option (\<lambda>x. x + m))) pat3D"

text \<open>The argument \<^verbatim>\<open>horiz_slice\<close>: absent, a scalar or a vector.\<close>

datatype horiz_arg = HAbsent | HScalar real | HVector "real list"

text \<open>\<^verbatim>\<open>np.arange(0, 361, 5)\<close>.\<close>

definition default_phi :: "real list" where
  "default_phi = map (\<lambda>i. 5 * real i) [0..<73]"

type_synonym pattern = "real option list list \<times> real list \<times> real list \<times> warning list"

text \<open>
  Lines 35 to 40: the horizontal slice as an array over \<open>phi\<close>. An absent slice is
  constant at the peak of the vertical slice, a scalar is repeated, a vector must have
  the length of \<open>phi\<close>.
\<close>

definition materialize_horiz :: "real list \<Rightarrow> horiz_arg \<Rightarrow> real list \<Rightarrow> error + real list" where
  "materialize_horiz vert_slice horiz_arg phi =
     (case horiz_arg of
        HAbsent \<Rightarrow>
          if vert_slice = [] then Inl EmptyReduction
          else Inr (map (\<lambda>_. np_max vert_slice * 1) phi)
      | HScalar s \<Rightarrow> Inr (map (\<lambda>_. s * 1) phi)
      | HVector h \<Rightarrow> if length h \<noteq> length phi then Inl DimensionMismatch else Inr h)"

text \<open>
  Lines 52 to 76: normalization, the combiner chosen by \<open>method\<close>, denormalization.
  The result carries the warnings emitted on the way.
\<close>

definition combine_slices ::
  "real list \<Rightarrow> real list \<Rightarrow> real list \<Rightarrow> real list \<Rightarrow> string \<Rightarrow> nat \<Rightarrow> warning list
     \<Rightarrow> error + pattern" where
  "combine_slices vert_slice theta horiz_slice phi method cross_weighted_normalization ws =
     (if vert_slice = [] \<or> horiz_slice = [] then Inl EmptyReduction
      else
        let m = max_directivity vert_slice horiz_slice;
            vert_slice_norm = normalize_slice m vert_slice;
            horiz_slice_norm = normalize_slice m horiz_slice
        in if method = ''Summing'' then
             (case preprocess_data vert_slice_norm theta horiz_slice_norm phi method of
                Inl e \<Rightarrow> Inl e
              | Inr (vert_mesh_log, theta_out, horiz_mesh_log, phi_out) \<Rightarrow>
                  Inr (denormalize m (summing vert_mesh_log horiz_mesh_log),
                       theta_out, phi_out, ws))
           else if method = ''CrossWeighted'' then
             (case preprocess_data vert_slice_norm theta horiz_slice_norm phi method of
                Inl e \<Rightarrow> Inl e
              | Inr (vert_mesh_log, theta_out, horiz_mesh_log, phi_out) \<Rightarrow>
                  Inr (denormalize m
                         (cross_weighted cross_weighted_normalization
                            vert_mesh_log horiz_mesh_log),
                       theta_out, phi_out, ws))
           else Inl (UnknownMethod method))"

text \<open>
  The entry point. The argument \<^verbatim>\<open>pattern_options\<close> is never read and is left out; the
  defaults of the source are method \<open>''Summing''\<close>, exponent 2 and tolerances 10, 3 and
  \<open>(1, 3)\<close>.
\<close>

definition pattern_from_slices ::
  "real list \<Rightarrow> real list \<Rightarrow> horiz_arg \<Rightarrow> real list option \<Rightarrow> string \<Rightarrow> nat
     \<Rightarrow> real \<Rightarrow> real \<Rightarrow> real \<times> real \<Rightarrow> error + pattern" where
  "pattern_from_slices vert_slice theta horiz_arg phi_arg method cross_weighted_normalization
       tol_nearest_angle_from_boresight tol_gain_max_vs_boresight
       tol_gain_diff_at_slice_intersect =
     (if length vert_slice \<noteq> length theta then Inl DimensionMismatch
      else
        let phi = (case phi_arg of None \<Rightarrow> default_phi | Some p \<Rightarrow> p)
        in case materialize_horiz vert_slice horiz_arg phi of
             Inl e \<Rightarrow> Inl e
           | Inr horiz_slice \<Rightarrow>
               (case check_repeated_points vert_slice theta ''el'' of
                  Inl e \<Rightarrow> Inl e
                | Inr _ \<Rightarrow>
                    (case check_repeated_points horiz_slice phi ''az'' of
                       Inl e \<Rightarrow> Inl e
                     | Inr _ \<Rightarrow>
                         (case check_reconstruction_requirements vert_slice theta horiz_slice phi
                                 tol_nearest_angle_from_boresight tol_gain_max_vs_boresight
                                 tol_gain_diff_at_slice_intersect of
                            Inl e \<Rightarrow> Inl e
                          | Inr ws \<Rightarrow>
                              combine_slices vert_slice theta horiz_slice phi method
                                cross_weighted_normalization ws))))"

section \<open>The reader of MSI Planet antenna files\<close>

text \<open>
  \<^verbatim>\<open>msiread\<close> is modelled from the list of lines that \<^verbatim>\<open>file.readlines()\<close> returns;
  opening the file is not part of the model. Text is ASCII. Python's \<^verbatim>\<open>float\<close> is
  a parameter \<open>pf\<close> of every function that parses a number: \<open>pf s = None\<close> where
  \<^verbatim>\<open>float(s)\<close> raises \<^verbatim>\<open>ValueError\<close>, and \<open>Some x\<close> for the number read.
\<close>

subsection \<open>Python strings\<close>

text \<open>The ASCII characters for which \<^verbatim>\<open>str.isspace\<close> holds.\<close>

definition is_space :: "char \<Rightarrow> bool" where
  "is_space c \<longleftrightarrow>
     c \<in> set [CHR 0x09, CHR 0x0A, CHR 0x0B, CHR 0x0C, CHR 0x0D,
               CHR 0x1C, CHR 0x1D, CHR 0x1E, CHR 0x1F, CHR '' '']"

definition py_strip :: "string \<Rightarrow> string" where
  "py_strip s = rev (dropWhile is_space (rev (dropWhile is_space s)))"

text \<open>\<^verbatim>\<open>s.split()\<close>: the maximal runs of characters that are not whitespace.\<close>

fun py_split_from :: "string \<Rightarrow> string \<Rightarrow> string list" where
  "py_split_from w [] = (if w = [] then [] else [w])"
| "py_split_from w (c # cs) =
     (if is_space c then (if w = [] then py_split_from [] cs else w # py_split_from [] cs)
      else py_split_from (w @ [c]) cs)"

definition py_split :: "string \<Rightarrow> string list" where
  "py_split s = py_split_from [] s"

text \<open>\<^verbatim>\<open>" ".join(ws)\<close>.\<close>

fun join_space :: "string list \<Rightarrow> string" where
  "join_space [] = []"
| "join_space [w] = w"
| "join_space (w # ws) = w @ '' '' @ join_space ws"

definition reduce_spaces :: "string \<Rightarrow> string" where
  "reduce_spaces s = join_space (py_split s)"

definition py_lower_char :: "char \<Rightarrow> char" where
  "py_lower_char c =
     (case map_of (zip ''ABCDEFGHIJKLMNOPQRSTUVWXYZ'' ''abcdefghijklmnopqrstuvwxyz'') c of
        Some d \<Rightarrow> d
      | None \<Rightarrow> c)"

definition py_lower :: "string \<Rightarrow> string" where
  "py_lower s = map py_lower_char s"

text \<open>\<^verbatim>\<open>line.find(' ')\<close>, with the length of the line where the source replaces -1.\<close>

definition find_space :: "string \<Rightarrow> nat" where
  "find_space line = length (takeWhile (\<lambda>c. c \<noteq> CHR '' '') line)"

subsection \<open>The values read\<close>

datatype msi_msg = NoMsg | NoNumericValue nat | ExpectedTwoValues nat

text \<open>
  A value of the dictionary \<^verbatim>\<open>Optional\<close>: a string, a number or \<^verbatim>\<open>None\<close>, or the
  dictionary \<^verbatim>\<open>{'value': v, 'unit': u}\<close> of a gain line.
\<close>

datatype optional_value = OStr string | ONum "real option" | OGain "real option" string

record slice_dict =
  PhysicalQuantity :: "string option"
  Magnitude :: "real list option"
  Units :: "string option"
  Azimuth :: "real list option"
  Elevation :: "real list option"
  Frequency :: "real option"
  Slice :: "string option"

text \<open>
  The local variables of \<^verbatim>\<open>msiread\<close> that the loop updates. \<open>TransData = None\<close> says
  that the local \<^verbatim>\<open>TransData\<close> has not been assigned yet.
\<close>

record msi_state =
  Horizontal :: slice_dict
  Vertical :: slice_dict
  Optional :: "string \<rightharpoonup> optional_value"
  count_n :: nat
  count_m :: nat
  optional_gain_value :: "real option"
  TransData :: "real list option"

text \<open>The exceptions that the body of the \<^verbatim>\<open>try\<close> can raise on the lines of a file.\<close>

datatype py_exception = PyTypeError | PyIndexError | PyUnboundLocalError

datatype msi_error = RuntimeError py_exception

subsection \<open>The helpers of msiread\<close>

definition get_scalar_numeric_value ::
  "(string \<Rightarrow> real option) \<Rightarrow> string \<Rightarrow> nat \<Rightarrow> real option \<times> msi_msg" where
  "get_scalar_numeric_value pf txt line_num =
     (case pf (py_strip txt) of
        Some v \<Rightarrow> (Some v, NoMsg)
      | None \<Rightarrow> (None, NoNumericValue line_num))"

definition get_value_with_unit ::
  "(string \<Rightarrow> real option) \<Rightarrow> string \<Rightarrow> nat
     \<Rightarrow> py_exception + (real option \<times> string \<times> msi_msg)" where
  "get_value_with_unit pf txt line_num =
     (let parts = py_split txt
      in if length parts = 1 then
           (let (v, msg) = get_scalar_numeric_value pf (parts ! 0) line_num
            in Inr (v, ''dBd'', msg))
         else if parts = [] then Inl PyIndexError
         else
           (let (v, msg) = get_scalar_numeric_value pf (parts ! 0) line_num
            in Inr (v, parts ! 1, msg)))"

definition get_scalar_numeric_value_or_string ::
  "(string \<Rightarrow> real option) \<Rightarrow> string \<Rightarrow> nat \<Rightarrow> optional_value \<times> msi_msg" where
  "get_scalar_numeric_value_or_string pf txt line_num =
     (let (v, msg) = get_scalar_numeric_value pf txt line_num
      in if msg \<noteq> NoMsg then (OStr (py_strip txt), NoMsg) else (ONum v, NoMsg))"

definition get_one_string_value :: "string \<Rightarrow> string \<times> msi_msg" where
  "get_one_string_value txt = (py_strip txt, NoMsg)"

text \<open>
  \<^verbatim>\<open>get_xy_coords\<close>: the loop over the lines that follow a section header, with the
  vector read so far. It returns at the first line that does not hold two numbers, and
  counts that line as read.
\<close>

fun get_xy_coords ::
  "(string \<Rightarrow> real option) \<Rightarrow> string list \<Rightarrow> nat \<Rightarrow> (real \<times> real) list
     \<Rightarrow> (real \<times> real) list \<times> msi_msg \<times> nat" where
  "get_xy_coords pf [] line_num vec = (vec, NoMsg, line_num)"
| "get_xy_coords pf (l # ls) line_num vec =
     (let line_num = line_num + 1;
          line = reduce_spaces (py_strip l)
      in if line = [] then get_xy_coords pf ls line_num vec
         else
           let parts = py_split line
           in if length parts \<noteq> 2 then (vec, ExpectedTwoValues line_num, line_num)
              else
                (case (pf (parts ! 0), pf (parts ! 1)) of
                   (Some x, Some y) \<Rightarrow> get_xy_coords pf ls line_num (vec @ [(x, y)])
                 | _ \<Rightarrow> (vec, NoMsg, line_num)))"

subsection \<open>The loop of msiread\<close>

text \<open>
  Lines 87 to 123: the chain of tests on the first word of a line. \<open>line_num\<close> is the
  number of lines read so far, the line at hand included.
\<close>

definition msi_dispatch ::
  "(string \<Rightarrow> real option) \<Rightarrow> string list \<Rightarrow> nat \<Rightarrow> string \<Rightarrow> string \<Rightarrow> msi_state
     \<Rightarrow> py_exception + (nat \<times> msi_state)" where
  "msi_dispatch pf lines line_num first_word rest_of_line st =
     (if first_word \<in> {''name'', ''make''} then
        Inr (line_num, st\<lparr>Optional := (Optional st)(first_word \<mapsto> OStr rest_of_line)\<rparr>)
      else if first_word \<in> {''h_width'', ''v_width'', ''front_to_back'', ''frequency''} then
        (let (v, msg) = get_scalar_numeric_value pf rest_of_line line_num;
             st1 = st\<lparr>Optional := (Optional st)(first_word \<mapsto> ONum v)\<rparr>
         in if first_word = ''frequency'' then
              (case v of
                 None \<Rightarrow> Inl PyTypeError
               | Some x \<Rightarrow>
                   Inr (line_num,
                        st1\<lparr>Horizontal := (Horizontal st1)\<lparr>Frequency := Some (x * 1000000)\<rparr>,
                            Vertical := (Vertical st1)\<lparr>Frequency := Some (x * 1000000)\<rparr>\<rparr>))
            else Inr (line_num, st1))
      else if first_word = ''tilt'' then
        (let (v, _) = get_scalar_numeric_value_or_string pf rest_of_line line_num
         in Inr (line_num, st\<lparr>Optional := (Optional st)(first_word \<mapsto> v)\<rparr>))
      else if first_word = ''gain'' then
        (case get_value_with_unit pf rest_of_line line_num of
           Inl e \<Rightarrow> Inl e
         | Inr (v, unit, msg) \<Rightarrow>
             Inr (line_num,
                  st\<lparr>Optional := (Optional st)(first_word \<mapsto> OGain v unit),
                     optional_gain_value := v\<rparr>))
      else if first_word = ''polarization'' then
        Inr (line_num,
             st\<lparr>Optional := (Optional st)(first_word \<mapsto> OStr (fst (get_one_string_value rest_of_line)))\<rparr>)
      else if first_word = ''comment'' then
        Inr (line_num, st\<lparr>Optional := (Optional st)(first_word \<mapsto> OStr rest_of_line)\<rparr>)
      else if first_word \<in> {''horizontal'', ''vertical''} then
        (let (N, msg) = get_scalar_numeric_value pf rest_of_line line_num
         in if first_word = ''horizontal'' then
              (let st1 = st\<lparr>count_n := count_n st + 1\<rparr>;
                   (data, msg, line_num) = get_xy_coords pf (drop line_num lines) line_num [];
                   st2 = (case optional_gain_value st1 of
                            Some g \<Rightarrow> st1\<lparr>TransData := Some (map (\<lambda>d. - 1 * snd d + g) data)\<rparr>
                          | None \<Rightarrow> st1);
                   st3 = st2\<lparr>Horizontal := (Horizontal st2)\<lparr>Azimuth := Some (map fst data)\<rparr>\<rparr>
               in case TransData st3 of
                    None \<Rightarrow> Inl PyUnboundLocalError
                  | Some td \<Rightarrow>
                      Inr (line_num, st3\<lparr>Horizontal := (Horizontal st3)\<lparr>Magnitude := Some td\<rparr>\<rparr>))
            else
              (let st1 = st\<lparr>count_m := count_m st + 1\<rparr>;
                   (data, msg, line_num) = get_xy_coords pf (drop line_num lines) line_num [];
                   st2 = (case optional_gain_value st1 of
                            Some g \<Rightarrow> st1\<lparr>TransData := Some (map (\<lambda>d. - 1 * snd d + g) data)\<rparr>
                          | None \<Rightarrow> st1);
                   st3 = st2\<lparr>Vertical := (Vertical st2)\<lparr>Azimuth := Some (map fst data)\<rparr>\<rparr>
               in case TransData st3 of
                    None \<Rightarrow> Inl PyUnboundLocalError
                  | Some td \<Rightarrow>
                      Inr (line_num, st3\<lparr>Vertical := (Vertical st3)\<lparr>Magnitude := Some td\<rparr>\<rparr>)))
      else Inr (line_num, st\<lparr>Optional := (Optional st)(first_word \<mapsto> OStr rest_of_line)\<rparr>))"

text \<open>
  Lines 73 to 85, then the chain: one turn of the \<^verbatim>\<open>while\<close> loop, from line number
  \<open>line_num\<close>. The flag \<^verbatim>\<open>parse_next_line\<close> is always true. The result is the line
  number and the state of the next turn.
\<close>

definition msi_step ::
  "(string \<Rightarrow> real option) \<Rightarrow> string list \<Rightarrow> nat \<Rightarrow> msi_state
     \<Rightarrow> py_exception + (nat \<times> msi_state)" where
  "msi_step pf lines line_num st =
     (let line = py_strip (lines ! line_num);
          line_num = line_num + 1
      in if line = [] then Inr (line_num, st)
         else
           let line = reduce_spaces line;
               idx = find_space line;
               first_word = py_lower (take idx line);
               rest_of_line = py_strip (drop idx line)
           in msi_dispatch pf lines line_num first_word rest_of_line st)"

lemma get_xy_coords_line_num: "line_num \<le> snd (snd (get_xy_coords pf ls line_num vec))"
proof (induction ls arbitrary: line_num vec)
  case Nil
  show ?case by simp
next
  case (Cons l ls)
  have a: "line_num \<le> snd (snd (get_xy_coords pf ls (Suc line_num) v))" for v
    using Cons.IH [of "Suc line_num" v] by simp
  show ?case by (simp add: Let_def a split: option.splits)
qed

lemma msi_dispatch_line_num:
  "msi_dispatch pf lines line_num first_word rest_of_line st = Inr (line_num', st') \<Longrightarrow>
   line_num \<le> line_num'"
  using get_xy_coords_line_num [of line_num pf "drop line_num lines" "[]"]
  by (auto simp: msi_dispatch_def Let_def
           split: if_splits option.splits sum.splits prod.splits)

lemma msi_step_line_num:
  "msi_step pf lines line_num st = Inr (line_num', st') \<Longrightarrow> line_num < line_num'"
  by (auto simp: msi_step_def Let_def split: if_splits dest!: msi_dispatch_line_num)

function msi_loop ::
  "(string \<Rightarrow> real option) \<Rightarrow> string list \<Rightarrow> nat \<Rightarrow> msi_state \<Rightarrow> py_exception + msi_state" where
  "msi_loop pf lines line_num st =
     (if line_num < length lines then
        (case msi_step pf lines line_num st of
           Inl e \<Rightarrow> Inl e
         | Inr (line_num', st') \<Rightarrow> msi_loop pf lines line_num' st')
      else Inr st)"
  by pat_completeness auto
termination
  by (relation "measure (\<lambda>(pf, lines, line_num, st). length lines - line_num)")
     (auto dest: msi_step_line_num)

definition empty_slice :: slice_dict where
  "empty_slice = \<lparr>PhysicalQuantity = None, Magnitude = None, Units = None, Azimuth = None,
                  Elevation = None, Frequency = None, Slice = None\<rparr>"

definition initial_state :: msi_state where
  "initial_state = \<lparr>Horizontal = empty_slice, Vertical = empty_slice, Optional = Map.empty,
                    count_n = 0, count_m = 0, optional_gain_value = None, TransData = None\<rparr>"

text \<open>
  Lines 125 to 132: the units, and every exception of the loop turned into a
  \<^verbatim>\<open>RuntimeError\<close>.
\<close>

definition msiread ::
  "(string \<Rightarrow> real option) \<Rightarrow> string list
     \<Rightarrow> msi_error + (slice_dict \<times> slice_dict \<times> (string \<rightharpoonup> optional_value))" where
  "msiread pf lines =
     (case msi_loop pf lines 0 initial_state of
        Inl e \<Rightarrow> Inl (RuntimeError e)
      | Inr st \<Rightarrow>
          (case Optional st ''gain'' of
             None \<Rightarrow> Inr (Horizontal st, Vertical st, Optional st)
           | Some (OGain v unit) \<Rightarrow>
               if unit = ''dBi''
               then Inr ((Horizontal st)\<lparr>Units := Some ''dBi''\<rparr>,
                         (Vertical st)\<lparr>Units := Some ''dBi''\<rparr>, Optional st)
               else Inr (Horizontal st, Vertical st, Optional st)
           | Some _ \<Rightarrow> Inl (RuntimeError PyTypeError)))"

subsection \<open>Lines by their first word\<close>

text \<open>
  The first word of a raw line as the loop computes it (lines 74, 78 and 80 to 84); it
  is empty for a blank line.
\<close>

definition first_word_of :: "string \<Rightarrow> string" where
  "first_word_of raw =
     (let line = reduce_spaces (py_strip raw) in py_lower (take (find_space line) line))"

definition section_header :: "string \<Rightarrow> bool" where
  "section_header raw \<longleftrightarrow> first_word_of raw \<in> {''horizontal'', ''vertical''}"

definition gain_line :: "string \<Rightarrow> bool" where
  "gain_line raw \<longleftrightarrow> first_word_of raw = ''gain''"

text \<open>A small table standing for \<^verbatim>\<open>float\<close> in the examples below.\<close>

definition pf0 :: "string \<Rightarrow> real option" where
  "pf0 = map_of [(''0'', 0), (''1'', 1), (''2'', 2), (''10'', 10)]"

section \<open>Properties of the reconstruction\<close>

subsection \<open>Maximum, minimum and normalization\<close>

lemma np_max_Max: "xs \<noteq> [] \<Longrightarrow> np_max xs = Max (set xs)"
  by (cases xs) (simp_all add: np_max_def Max.set_eq_fold [symmetric] del: set_simps)

lemma np_min_Min: "xs \<noteq> [] \<Longrightarrow> np_min xs = Min (set xs)"
  by (cases xs) (simp_all add: np_min_def Min.set_eq_fold [symmetric] del: set_simps)

lemma np_max_ge: "x \<in> set xs \<Longrightarrow> x \<le> np_max xs"
  by (cases "xs = []") (simp_all add: np_max_Max)

lemma np_max_in: "xs \<noteq> [] \<Longrightarrow> np_max xs \<in> set xs"
  by (simp add: np_max_Max)

lemma max_directivity_ge:
  "x \<in> set vert_slice \<union> set horiz_slice \<Longrightarrow> x \<le> max_directivity vert_slice horiz_slice"
  unfolding max_directivity_def by (auto dest: np_max_ge)

lemma max_directivity_in:
  "vert_slice \<noteq> [] \<Longrightarrow> horiz_slice \<noteq> [] \<Longrightarrow>
   max_directivity vert_slice horiz_slice \<in> set vert_slice \<union> set horiz_slice"
  unfolding max_directivity_def using np_max_in [of vert_slice] np_max_in [of horiz_slice]
  by (auto simp: max_def)

lemma normalize_le_0:
  "x \<in> set (normalize_slice (max_directivity v h) v) \<union>
        set (normalize_slice (max_directivity v h) h) \<Longrightarrow> x \<le> 0"
  unfolding normalize_slice_def using max_directivity_ge [of _ v h] by auto

lemma np_max_normalized:
  assumes "v \<noteq> []" "h \<noteq> []"
  shows "np_max (normalize_slice (max_directivity v h) v @
                 normalize_slice (max_directivity v h) h) = 0"
proof -
  let ?m = "max_directivity v h"
  let ?S = "set (normalize_slice ?m v @ normalize_slice ?m h)"
  have fin: "finite ?S" by simp
  have ub: "\<forall>x\<in>?S. x \<le> 0" using normalize_le_0 [of _ v h] by auto
  have "?m \<in> set v \<union> set h" using assms by (rule max_directivity_in)
  then have "0 \<in> ?S" by (auto simp: normalize_slice_def image_iff)
  with fin ub have "Max ?S = 0" by (intro Max_eqI) auto
  moreover have "normalize_slice ?m v @ normalize_slice ?m h \<noteq> []"
    using assms by (simp add: normalize_slice_def)
  ultimately show ?thesis using np_max_Max by metis
qed

lemma add_back: "map (\<lambda>x. x + m) (normalize_slice m xs) = xs"
  by (simp add: normalize_slice_def o_def)

lemma denormalize_normalized:
  "denormalize m (map (map (\<lambda>x. Some (x - m))) g) = map (map Some) g"
  by (simp add: denormalize_def o_def)

subsection \<open>The end-to-end scenario\<close>

lemmas prim_defs =
  np_mod_def np_round_def np_max_def np_min_def np_argmin_def np_unique_def
  mask_select_def np_meshgrid_def

lemmas pipeline_defs =
  pattern_from_slices_def materialize_horiz_def check_repeated_points_def group_vals_def
  check_reconstruction_requirements_def min_from_bs_def bs_index_def combine_slices_def
  max_directivity_def normalize_slice_def denormalize_def summing_def grid_map2_def
  summing_cell_def preprocess_data_def

text \<open>
  C6. On \<open>\<theta> = [0, 45, 90, 135, 180]\<close>, vertical gains \<open>[-20, -6, 0, -6, -20]\<close>,
  \<open>\<phi> = [0, 90, 180, 270]\<close>, horizontal gains \<open>[0, -10, -20, -10]\<close>, method Summing and
  the default tolerances, the call returns without a warning; the maximum directivity
  is 0; \<open>\<theta>_out\<close> and \<open>\<phi>_out\<close> are the input series; the grid is the outer sum of the two
  slices (one row for each \<open>\<phi>\<close>, one column for each \<open>\<theta>\<close>), and its cell at \<open>\<phi> = 0\<close>
  (row 0) and \<open>\<theta> = 90\<close> (column 2) is exactly 0.
\<close>

theorem end_to_end_summing:
  "pattern_from_slices [-20, -6, 0, -6, -20] [0, 45, 90, 135, 180]
       (HVector [0, -10, -20, -10]) (Some [0, 90, 180, 270]) ''Summing'' 2 10 3 (1, 3) =
     Inr (map (\<lambda>h. map (\<lambda>v. Some (v + h)) [-20, -6, 0, -6, -20]) [0, -10, -20, -10],
          [0, 45, 90, 135, 180], [0, 90, 180, 270], []) \<and>
   max_directivity [-20, -6, 0, -6, -20] [0, -10, -20, -10] = 0 \<and>
   map (\<lambda>h. map (\<lambda>v. Some (v + h)) [-20, -6, 0, -6, -20]) [0, -10, -20, -10] ! 0 ! 2
     = Some (0 :: real)"
  by (simp add: pipeline_defs prim_defs Let_def upt_conv_Cons)

subsection \<open>Boresight coverage\<close>

text \<open>
  C2. The check of lines 98 to 105 takes the minimum of \<open>(a - bs) mod 360\<close>, which lies
  in \<open>[0, 360)\<close>, so the absolute value changes nothing and a sample below the boresight
  counts as almost a full turn away. A vertical slice whose nearest sample is at
  \<open>\<theta> = 80\<close>, 10 degrees from boresight, is rejected at tolerance 10, while the sample
  at \<open>\<theta> = 100\<close> passes and the one at \<open>\<theta> = 100.0001\<close> is rejected.
\<close>

theorem boresight_coverage_one_sided:
  "min_from_bs [0, 40, 80] 90 = 270 \<and>
   pattern_from_slices [-3, -1, 0] [0, 40, 80] (HVector [0, -10, -20, -10])
       (Some [0, 90, 180, 270]) ''Summing'' 2 10 3 (1, 3)
     = Inl (NoBoresightCoverage Vertical_slice) \<and>
   check_reconstruction_requirements [0] [80] [0] [0] 10 3 (1, 3)
     = Inl (NoBoresightCoverage Vertical_slice) \<and>
   check_reconstruction_requirements [0] [100] [0] [0] 10 3 (1, 3) = Inr [] \<and>
   check_reconstruction_requirements [0] [100.0001] [0] [0] 10 3 (1, 3)
     = Inl (NoBoresightCoverage Vertical_slice)"
  by (simp add: pipeline_defs prim_defs Let_def)

subsection \<open>Masks, grids and the shape of the results\<close>

lemma mask_select_map: "mask_select xs (map P xs) = filter P xs"
  by (induction xs) (simp_all add: mask_select_def)

lemma length_mask_select:
  "length xs = length msk \<Longrightarrow> length (mask_select xs msk) = length (filter id msk)"
  by (induction xs msk rule: list_induct2) (simp_all add: mask_select_def)

lemma set_mask_select: "set (mask_select xs msk) \<subseteq> set xs"
  by (auto simp: mask_select_def dest: set_zip_leftD)

lemma map_nth_upt_take: "n \<le> length xs \<Longrightarrow> map (\<lambda>i. xs ! i) [0..<n] = take n xs"
  by (simp add: list_eq_iff_nth_eq)

lemma preprocess_data_Inr:
  assumes "preprocess_data vn theta hn phi method = Inr (vm, theta_out, hm, phi_out)"
  shows "method \<in> {''Summing'', ''CrossWeighted''}"
    and "length vn = length theta" and "length phi \<le> length hn"
    and "theta_out = filter (\<lambda>t. np_mod t 360 \<le> 180) theta"
    and "phi_out = phi"
    and "vm = replicate (length phi) (mask_select vn (map (\<lambda>t. np_mod t 360 \<le> 180) theta))"
    and "hm = map (\<lambda>v. replicate
                 (length (mask_select vn (map (\<lambda>t. np_mod t 360 \<le> 180) theta))) v)
               (take (length phi) hn)"
  using assms
  by (auto simp: preprocess_data_def Let_def np_meshgrid_def map_nth_upt_take map_nth
      mask_select_map [of theta "\<lambda>t. np_mod t 360 \<le> 180", unfolded map_map [symmetric] o_def]
      o_def split: if_splits)

lemma grid_map2_nth:
  "i < length A \<Longrightarrow> i < length B \<Longrightarrow> j < length (A ! i) \<Longrightarrow> j < length (B ! i) \<Longrightarrow>
   grid_map2 f A B ! i ! j = f (A ! i ! j) (B ! i ! j)"
  by (simp add: grid_map2_def)

lemma grid_map2_meshgrid:
  "grid_map2 f (replicate (length y) x) (map (\<lambda>v. replicate (length x) v) y) =
   map (\<lambda>h. map (\<lambda>v. f v h) x) y"
  by (simp add: grid_map2_def list_eq_iff_nth_eq)

lemma preprocess_grid_shape:
  assumes "preprocess_data vert_slice_norm theta horiz_slice_norm phi method =
             Inr (vert_mesh_log, theta_out, horiz_mesh_log, phi_out)"
  shows "length vert_mesh_log = length phi_out \<and> length horiz_mesh_log = length phi_out \<and>
         length theta_out =
           length (mask_select vert_slice_norm (map (\<lambda>t. np_mod t 360 \<le> 180) theta)) \<and>
         (\<forall>j<length phi_out.
            length (vert_mesh_log ! j) = length theta_out \<and>
            length (horiz_mesh_log ! j) = length theta_out \<and>
            (\<forall>i<length theta_out.
               vert_mesh_log ! j ! i =
                 mask_select vert_slice_norm (map (\<lambda>t. np_mod t 360 \<le> 180) theta) ! i \<and>
               horiz_mesh_log ! j ! i = horiz_slice_norm ! j))"
proof -
  let ?msk = "map (\<lambda>t. np_mod t 360 \<le> 180) theta"
  note r = preprocess_data_Inr [OF assms]
  have len: "length (mask_select vert_slice_norm ?msk) = length theta_out"
    using r(2) by (simp add: length_mask_select r(4) o_def)
  show ?thesis
    using r(3) by (simp add: r(5,6,7) len)
qed

lemma combine_slices_Inr:
  assumes "combine_slices v theta h phi method k ws = Inr (pat, theta_out, phi_out, ws')"
  shows "\<exists>vm hm f. preprocess_data (normalize_slice (max_directivity v h) v) theta
                      (normalize_slice (max_directivity v h) h) phi method
                    = Inr (vm, theta_out, hm, phi_out) \<and>
                  pat = denormalize (max_directivity v h) (grid_map2 f vm hm) \<and>
                  (method = ''Summing'' \<and> f = summing_cell \<or>
                   method = ''CrossWeighted'' \<and> f = cross_weighted_cell k) \<and>
                  ws' = ws \<and> v \<noteq> [] \<and> h \<noteq> []"
  using assms
  by (auto simp: combine_slices_def Let_def summing_def cross_weighted_def
           split: if_splits sum.splits)

lemma pattern_from_slices_Inr:
  assumes "pattern_from_slices v theta horiz_arg phi_arg method k t1 t2 t3 = Inr r"
  shows "\<exists>h ws. length v = length theta \<and>
           materialize_horiz v horiz_arg (case phi_arg of None \<Rightarrow> default_phi | Some p \<Rightarrow> p)
             = Inr h \<and>
           check_repeated_points v theta ''el'' = Inr () \<and>
           check_repeated_points h (case phi_arg of None \<Rightarrow> default_phi | Some p \<Rightarrow> p) ''az''
             = Inr () \<and>
           check_reconstruction_requirements v theta h
             (case phi_arg of None \<Rightarrow> default_phi | Some p \<Rightarrow> p) t1 t2 t3 = Inr ws \<and>
           combine_slices v theta h (case phi_arg of None \<Rightarrow> default_phi | Some p \<Rightarrow> p)
             method k ws = Inr r"
  using assms
  by (auto simp: pattern_from_slices_def Let_def split: if_splits sum.splits)

lemma materialize_horiz_length:
  "materialize_horiz v horiz_arg phi = Inr h \<Longrightarrow> length h = length phi"
  by (auto simp: materialize_horiz_def split: horiz_arg.splits if_splits)

lemma pattern_shape:
  assumes "pattern_from_slices v theta horiz_arg phi_arg method k t1 t2 t3 =
             Inr (pat, theta_out, phi_out, ws)"
  shows "length pat = length phi_out \<and> (\<forall>j<length phi_out. length (pat ! j) = length theta_out)"
proof -
  from pattern_from_slices_Inr [OF assms] obtain h ws' phi where
    c: "combine_slices v theta h phi method k ws' = Inr (pat, theta_out, phi_out, ws)"
    by blast
  from combine_slices_Inr [OF c] obtain vm hm f where
    p: "preprocess_data (normalize_slice (max_directivity v h) v) theta
          (normalize_slice (max_directivity v h) h) phi method = Inr (vm, theta_out, hm, phi_out)"
    and pat: "pat = denormalize (max_directivity v h) (grid_map2 f vm hm)"
    by blast
  note r = preprocess_data_Inr [OF p]
  have len: "length (mask_select (normalize_slice (max_directivity v h) v)
                (map (\<lambda>t. np_mod t 360 \<le> 180) theta)) = length theta_out"
    using r(2) by (simp add: length_mask_select r(4) o_def)
  show ?thesis
    using r(3) by (simp add: pat r(5,6,7) len denormalize_def grid_map2_def)
qed

lemma np_mod_range: "0 < m \<Longrightarrow> 0 \<le> np_mod x m \<and> np_mod x m < m"
  unfolding np_mod_def
  using floor_divide_lower [of m x] floor_divide_upper [of m x]
  by (simp add: algebra_simps)

subsection \<open>Normalization in the pipeline\<close>

lemma mask_select_map_left: "mask_select (map f xs) msk = map f (mask_select xs msk)"
  by (simp add: mask_select_def zip_map1 filter_map o_def split_def)

lemma pattern_from_slices_pipeline:
  assumes "materialize_horiz v horiz_arg (case phi_arg of None \<Rightarrow> default_phi | Some p \<Rightarrow> p)
             = Inr h"
    and "pattern_from_slices v theta horiz_arg phi_arg method k t1 t2 t3 =
             Inr (pat, theta_out, phi_out, ws)"
  shows "\<exists>vm hm.
           preprocess_data (normalize_slice (max_directivity v h) v) theta
             (normalize_slice (max_directivity v h) h)
             (case phi_arg of None \<Rightarrow> default_phi | Some p \<Rightarrow> p) method
             = Inr (vm, theta_out, hm, phi_out) \<and>
           pat = denormalize (max_directivity v h)
                   (if method = ''Summing'' then summing vm hm else cross_weighted k vm hm) \<and>
           (method = ''Summing'' \<longrightarrow>
              (\<forall>j<length (case phi_arg of None \<Rightarrow> default_phi | Some p \<Rightarrow> p).
               \<forall>i<length theta_out.
                 pat ! j ! i =
                   Some ((mask_select v (map (\<lambda>t. np_mod t 360 \<le> 180) theta) ! i
                            - max_directivity v h)
                         + (h ! j - max_directivity v h) + max_directivity v h)))"
proof -
  define phi where "phi = (case phi_arg of None \<Rightarrow> default_phi | Some p \<Rightarrow> p)"
  let ?m = "max_directivity v h"
  let ?vn = "normalize_slice ?m v" and ?hn = "normalize_slice ?m h"
  let ?msk = "map (\<lambda>t. np_mod t 360 \<le> 180) theta"
  from pattern_from_slices_Inr [OF assms(2)] obtain h' ws' where
    mh: "materialize_horiz v horiz_arg phi = Inr h'"
    and c: "combine_slices v theta h' phi method k ws' = Inr (pat, theta_out, phi_out, ws)"
    unfolding phi_def by auto
  from mh assms(1) have h': "h' = h" unfolding phi_def by simp
  from materialize_horiz_length [OF mh] have lh: "length h = length phi" unfolding h' .
  from combine_slices_Inr [OF c [unfolded h']] obtain vm hm f where
    p: "preprocess_data ?vn theta ?hn phi method = Inr (vm, theta_out, hm, phi_out)"
    and pat: "pat = denormalize ?m (grid_map2 f vm hm)"
    and f: "method = ''Summing'' \<and> f = summing_cell \<or>
            method = ''CrossWeighted'' \<and> f = cross_weighted_cell k"
    by blast
  note r = preprocess_data_Inr [OF p]
  have pat': "pat = denormalize ?m
                (if method = ''Summing'' then summing vm hm else cross_weighted k vm hm)"
    using f pat by (auto simp: summing_def cross_weighted_def)
  have cells: "pat ! j ! i =
                 Some ((mask_select v ?msk ! i - ?m) + (h ! j - ?m) + ?m)"
    if s: "method = ''Summing''" and j: "j < length phi" and i: "i < length theta_out" for j i
  proof -
    have len: "length (mask_select ?vn ?msk) = length theta_out"
      using r(2) by (simp add: length_mask_select r(4) o_def)
    have leni: "i < length (mask_select v ?msk)"
      using i len by (simp add: normalize_slice_def mask_select_map_left)
    have vs: "mask_select ?vn ?msk ! i = mask_select v ?msk ! i - ?m"
      using leni by (simp add: normalize_slice_def mask_select_map_left)
    have hs: "?hn ! j = h ! j - ?m" using j lh by (simp add: normalize_slice_def)
    have "pat = denormalize ?m (grid_map2 summing_cell vm hm)" using f pat s by auto
    then show ?thesis
      using j i lh len vs hs
      by (simp add: r(6,7) denormalize_def grid_map2_def summing_cell_def normalize_slice_def)
  qed
  from p pat' cells show ?thesis unfolding phi_def by blast
qed

text \<open>
  C7. With \<open>m = max (max vert_gain) (max horiz_gain)\<close>, normalization subtracts \<open>m\<close> from
  every value of both slices, the maximum over both normalized slices is exactly 0, and
  adding \<open>m\<close> back (as the denormalization does, cell by cell) gives every original value,
  and so the original maximum, again. The program does exactly this: whenever
  \<open>pattern_from_slices\<close> returns (for a horizontal slice given as a vector, or
  materialized from a scalar or from nothing), the grids it combines are built from the
  two slices with \<open>m\<close> subtracted, and the pattern it returns is the combined grid with the same
  \<open>m\<close> added to every cell; for the summing method the cell for \<open>\<phi> ! j\<close> and the \<open>i\<close>-th
  retained \<open>\<theta>\<close> is \<open>(v - m) + (h - m) + m\<close> for the two original gains \<open>v\<close> and \<open>h\<close>.
\<close>

theorem normalization_round_trip:
  assumes "vert_slice \<noteq> []" and "horiz_slice \<noteq> []"
  shows "(let m = max_directivity vert_slice horiz_slice;
              vert_slice_norm = normalize_slice m vert_slice;
              horiz_slice_norm = normalize_slice m horiz_slice
          in m = max (Max (set vert_slice)) (Max (set horiz_slice)) \<and>
             vert_slice_norm = map (\<lambda>x. x - m) vert_slice \<and>
             horiz_slice_norm = map (\<lambda>x. x - m) horiz_slice \<and>
             np_max (vert_slice_norm @ horiz_slice_norm) = 0 \<and>
             max (np_max vert_slice_norm) (np_max horiz_slice_norm) = 0 \<and>
             map (\<lambda>x. x + m) vert_slice_norm = vert_slice \<and>
             map (\<lambda>x. x + m) horiz_slice_norm = horiz_slice \<and>
             np_max (map (\<lambda>x. x + m) (vert_slice_norm @ horiz_slice_norm)) = m \<and>
             denormalize m (map (map (\<lambda>x. Some (x - m))) g) = map (map Some) g \<and>
             (\<forall>theta horiz_arg phi_arg method k t1 t2 t3 pat theta_out phi_out ws.
                materialize_horiz vert_slice horiz_arg
                    (case phi_arg of None \<Rightarrow> default_phi | Some p \<Rightarrow> p) = Inr horiz_slice \<and>
                pattern_from_slices vert_slice theta horiz_arg phi_arg method k
                    t1 t2 t3 = Inr (pat, theta_out, phi_out, ws) \<longrightarrow>
                (\<exists>vm hm.
                   preprocess_data vert_slice_norm theta horiz_slice_norm
                       (case phi_arg of None \<Rightarrow> default_phi | Some p \<Rightarrow> p) method
                     = Inr (vm, theta_out, hm, phi_out) \<and>
                   pat = denormalize m
                           (if method = ''Summing'' then summing vm hm
                            else cross_weighted k vm hm) \<and>
                   (method = ''Summing'' \<longrightarrow>
                      (\<forall>j<length (case phi_arg of None \<Rightarrow> default_phi | Some p \<Rightarrow> p).
                       \<forall>i<length theta_out.
                         pat ! j ! i =
                           Some ((mask_select vert_slice
                                    (map (\<lambda>t. np_mod t 360 \<le> 180) theta) ! i - m)
                                 + (horiz_slice ! j - m) + m))))))"
proof -
  let ?m = "max_directivity vert_slice horiz_slice"
  have a: "?m = max (Max (set vert_slice)) (Max (set horiz_slice))"
    using assms by (simp add: max_directivity_def np_max_Max)
  have b: "np_max (normalize_slice ?m vert_slice @ normalize_slice ?m horiz_slice) = 0"
    using assms by (rule np_max_normalized)
  have ne: "normalize_slice ?m vert_slice \<noteq> []" "normalize_slice ?m horiz_slice \<noteq> []"
    using assms by (simp_all add: normalize_slice_def)
  have c: "max (np_max (normalize_slice ?m vert_slice))
               (np_max (normalize_slice ?m horiz_slice)) = 0"
    using b ne by (simp add: np_max_Max Max_Un)
  have d: "np_max (map (\<lambda>x. x + ?m)
             (normalize_slice ?m vert_slice @ normalize_slice ?m horiz_slice)) = ?m"
    using assms by (simp add: add_back np_max_Max Max_Un a)
  have e: "\<forall>theta horiz_arg phi_arg method k t1 t2 t3 pat theta_out phi_out ws.
             materialize_horiz vert_slice horiz_arg
                 (case phi_arg of None \<Rightarrow> default_phi | Some p \<Rightarrow> p) = Inr horiz_slice \<and>
             pattern_from_slices vert_slice theta horiz_arg phi_arg method k
                 t1 t2 t3 = Inr (pat, theta_out, phi_out, ws) \<longrightarrow>
             (\<exists>vm hm.
                preprocess_data (normalize_slice ?m vert_slice) theta
                  (normalize_slice ?m horiz_slice)
                  (case phi_arg of None \<Rightarrow> default_phi | Some p \<Rightarrow> p) method
                  = Inr (vm, theta_out, hm, phi_out) \<and>
                pat = denormalize ?m
                        (if method = ''Summing'' then summing vm hm
                         else cross_weighted k vm hm) \<and>
                (method = ''Summing'' \<longrightarrow>
                   (\<forall>j<length (case phi_arg of None \<Rightarrow> default_phi | Some p \<Rightarrow> p).
                    \<forall>i<length theta_out.
                      pat ! j ! i =
                        Some ((mask_select vert_slice
                                 (map (\<lambda>t. np_mod t 360 \<le> 180) theta) ! i - ?m)
                              + (horiz_slice ! j - ?m) + ?m))))"
    by (intro allI impI, elim conjE) (rule pattern_from_slices_pipeline)
  show ?thesis
    unfolding Let_def
    by (intro conjI a b c d e add_back denormalize_normalized normalize_slice_def)
qed

theorem normalization_round_trip_witness:
  "[7, 3 :: real] \<noteq> [] \<and> [5 :: real] \<noteq> [] \<and> max_directivity [7, 3] [5] = 7 \<and>
   normalize_slice 7 [7, 3] = [0, -4] \<and> normalize_slice 7 [5] = [-2] \<and>
   np_max ([0, -4] @ [-2]) = 0 \<and> map (\<lambda>x. x + 7) [0, -4] = [7, 3 :: real] \<and>
   pattern_from_slices [7, 3] [90, 45] (HVector [5]) (Some [0]) ''Summing'' 2 10 3 (1, 3)
     = Inr ([[Some 5, Some 1]], [90, 45], [0], [SliceIntersectionDivergence]) \<and>
   [[Some 5, Some 1]] ! 0 ! 1 = Some ((3 - 7) + (5 - 7) + (7 :: real))"
proof -
  have h1: "[7, 3 :: real] \<noteq> []" and h2: "[5 :: real] \<noteq> []" by simp_all
  have m: "max_directivity [7, 3] [5] = 7" by (simp add: max_directivity_def np_max_def)
  have q: "pattern_from_slices [7, 3] [90, 45] (HVector [5]) (Some [0]) ''Summing'' 2 10 3 (1, 3)
     = Inr ([[Some 5, Some 1]], [90, 45], [0], [SliceIntersectionDivergence])"
    by (simp add: pipeline_defs prim_defs Let_def upt_conv_Cons)
  have sel: "mask_select [7, 3 :: real] (map (\<lambda>t. np_mod t 360 \<le> 180) [90, 45]) ! 1 = 3"
    by (simp add: prim_defs)
  note t = normalization_round_trip [OF h1 h2, of "[]", unfolded Let_def m]
  from t have a: "normalize_slice 7 [7, 3] = [0, -4] \<and> normalize_slice 7 [5] = [-2] \<and>
      np_max ([0, -4] @ [-2]) = 0 \<and> map (\<lambda>x. x + 7) [0, -4] = [7, 3 :: real]"
    by (simp add: normalize_slice_def)
  have mh: "materialize_horiz [7, 3] (HVector [5]) (case Some [0] of None \<Rightarrow> default_phi | Some p \<Rightarrow> p)
              = Inr [5]"
    by (simp add: materialize_horiz_def)
  from t have "\<forall>theta horiz_arg phi_arg method k t1 t2 t3 pat theta_out phi_out ws.
      materialize_horiz [7, 3] horiz_arg (case phi_arg of None \<Rightarrow> default_phi | Some p \<Rightarrow> p)
        = Inr [5] \<and>
      pattern_from_slices [7, 3] theta horiz_arg phi_arg method k t1 t2 t3
        = Inr (pat, theta_out, phi_out, ws) \<longrightarrow>
      (\<exists>vm hm.
         preprocess_data (normalize_slice 7 [7, 3]) theta (normalize_slice 7 [5])
             (case phi_arg of None \<Rightarrow> default_phi | Some p \<Rightarrow> p) method
           = Inr (vm, theta_out, hm, phi_out) \<and>
         pat = denormalize 7
                 (if method = ''Summing'' then summing vm hm else cross_weighted k vm hm) \<and>
         (method = ''Summing'' \<longrightarrow>
            (\<forall>j<length (case phi_arg of None \<Rightarrow> default_phi | Some p \<Rightarrow> p).
             \<forall>i<length theta_out.
               pat ! j ! i =
                 Some ((mask_select [7, 3] (map (\<lambda>t. np_mod t 360 \<le> 180) theta) ! i - 7)
                       + ([5] ! j - 7) + 7))))"
    by blast
  from this [rule_format, OF conjI [OF mh q]]
  have cellf: "\<forall>j<length [0 :: real]. \<forall>i<length [90, 45 :: real].
          [[Some 5, Some 1]] ! j ! i =
            Some ((mask_select [7, 3] (map (\<lambda>t. np_mod t 360 \<le> 180) [90, 45]) ! i - 7)
                  + ([5] ! j - 7) + (7 :: real))"
    by (elim exE conjE) simp
  have l0: "(0::nat) < length [0 :: real]" and l1: "(1::nat) < length [90, 45 :: real]"
    by simp_all
  have b: "[[Some 5, Some 1]] ! 0 ! 1 = Some ((3 - 7) + (5 - 7) + (7 :: real))"
    using cellf [rule_format, OF l0 l1] unfolding sel by simp
  from a b show ?thesis by (intro conjI h1 h2 m q) simp_all
qed

subsection \<open>The cross-weighted combiner\<close>

lemma mesh_lin_pos: "0 < mesh_lin X"
  by (simp add: mesh_lin_def)

lemma mesh_lin_le_1: "X \<le> 0 \<Longrightarrow> mesh_lin X \<le> 1"
  unfolding mesh_lin_def using powr_mono [of "X / 10" 0 10] by simp

lemma mesh_lin_eq_1: "mesh_lin X = 1 \<longleftrightarrow> X = 0"
  unfolding mesh_lin_def using powr_eq_one_iff [of 10 "X / 10"] by simp

lemma cw_w1_eq_0: "cw_w1 V H = 0 \<longleftrightarrow> mesh_lin H = 1"
  using mesh_lin_pos [of V] by (auto simp: cw_w1_def)

lemma cw_w2_eq_0: "cw_w2 V H = 0 \<longleftrightarrow> mesh_lin V = 1"
  using mesh_lin_pos [of H] by (auto simp: cw_w2_def)

lemma cw_w1_nonneg: "H \<le> 0 \<Longrightarrow> 0 \<le> cw_w1 V H"
  using mesh_lin_pos [of V] mesh_lin_le_1 [of H] by (simp add: cw_w1_def)

lemma cw_w2_nonneg: "V \<le> 0 \<Longrightarrow> 0 \<le> cw_w2 V H"
  using mesh_lin_pos [of H] mesh_lin_le_1 [of V] by (simp add: cw_w2_def)

lemma cw_denominator_pos:
  assumes "V \<le> 0" "H \<le> 0" "\<not> (cw_w1 V H = 0 \<and> cw_w2 V H = 0)"
  shows "0 < cw_denominator k V H"
proof -
  have a: "0 \<le> cw_w1 V H" and b: "0 \<le> cw_w2 V H"
    using assms by (simp_all add: cw_w1_nonneg cw_w2_nonneg)
  from assms(3) a b have "0 < cw_w1 V H \<or> 0 < cw_w2 V H" by auto
  then have "0 < cw_w1 V H ^ k + cw_w2 V H ^ k"
  proof
    assume "0 < cw_w1 V H"
    then have "0 < cw_w1 V H ^ k" by simp
    moreover have "0 \<le> cw_w2 V H ^ k" using b by simp
    ultimately show ?thesis by linarith
  next
    assume "0 < cw_w2 V H"
    then have "0 < cw_w2 V H ^ k" by simp
    moreover have "0 \<le> cw_w1 V H ^ k" using a by simp
    ultimately show ?thesis by linarith
  qed
  then show ?thesis by (simp add: cw_denominator_def)
qed

lemma cw_numerator_nonpos:
  assumes "V \<le> 0" "H \<le> 0"
  shows "H * cw_w1 V H + V * cw_w2 V H \<le> 0"
proof -
  have "H * cw_w1 V H \<le> 0" using assms cw_w1_nonneg [of H V] by (simp add: mult_nonpos_nonneg)
  moreover have "V * cw_w2 V H \<le> 0"
    using assms cw_w2_nonneg [of V H] by (simp add: mult_nonpos_nonneg)
  ultimately show ?thesis by linarith
qed

lemma cross_weighted_cell_cases:
  assumes "V \<le> 0" "H \<le> 0"
  shows "(cw_w1 V H = 0 \<and> cw_w2 V H = 0 \<and> cross_weighted_cell k V H = Some 0) \<or>
         (\<not> (cw_w1 V H = 0 \<and> cw_w2 V H = 0) \<and> 0 < cw_denominator k V H \<and>
          cross_weighted_cell k V H =
            Some ((H * cw_w1 V H + V * cw_w2 V H) / cw_denominator k V H))"
proof (cases "cw_w1 V H = 0 \<and> cw_w2 V H = 0")
  case True
  then show ?thesis by (simp add: cross_weighted_cell_def)
next
  case False
  with cw_denominator_pos [OF assms, of k] have "0 < cw_denominator k V H" by blast
  with False show ?thesis by (simp add: cross_weighted_cell_def cw_quotient_def)
qed

lemma cross_weighted_cell_nonpos:
  assumes "V \<le> 0" "H \<le> 0"
  shows "\<exists>r. cross_weighted_cell k V H = Some r \<and> r \<le> 0"
  using cross_weighted_cell_cases [OF assms, of k] cw_numerator_nonpos [OF assms]
  by (auto simp: divide_le_0_iff)

lemma cw_quotient_peak: "0 < k \<Longrightarrow> cw_quotient k 0 0 = None"
  by (simp add: cw_quotient_def cw_denominator_def cw_w1_def cw_w2_def mesh_lin_def)

text \<open>
  In exact arithmetic, at a cell where both normalized grid values are at most 0, the
  linear values \<open>v\<close> and \<open>h\<close> lie in \<open>(0, 1]\<close>; the two weights \<open>w1 = v (1 - h)\<close> and
  \<open>w2 = h (1 - v)\<close> vanish together exactly when \<open>v = h = 1\<close> (both slices at their
  normalized peak), and there the output before denormalization is forced to exactly 0.
  At every other such cell the exact denominator \<open>cbrt (w1^k + w2^k)\<close> is not zero. This
  is a statement about real numbers only: it does not say that the double-precision
  denominator is not zero.
\<close>

lemma cross_weighted_singularity_exact:
  assumes "i < length Vg" and "i < length Hg" and "j < length (Vg ! i)" and "j < length (Hg ! i)"
    and "Vg ! i ! j \<le> 0" and "Hg ! i ! j \<le> 0"
  shows "(let V = Vg ! i ! j; H = Hg ! i ! j; v = mesh_lin V; h = mesh_lin H;
              w1 = cw_w1 V H; w2 = cw_w2 V H;
              pat3D = cross_weighted k Vg Hg ! i ! j
          in 0 < v \<and> v \<le> 1 \<and> 0 < h \<and> h \<le> 1 \<and>
             w1 = v * (1 - h) \<and> w2 = h * (1 - v) \<and>
             ((w1 = 0 \<and> w2 = 0) = (v = 1 \<and> h = 1)) \<and>
             ((w1 = 0 \<and> w2 = 0) = (V = 0 \<and> H = 0)) \<and>
             (if w1 = 0 \<and> w2 = 0 then pat3D = Some 0
              else cw_denominator k V H \<noteq> 0 \<and>
                   pat3D = Some ((H * w1 + V * w2) / cw_denominator k V H)))"
proof -
  let ?V = "Vg ! i ! j" and ?H = "Hg ! i ! j"
  have cell: "cross_weighted k Vg Hg ! i ! j = cross_weighted_cell k ?V ?H"
    using assms(1-4) by (simp add: cross_weighted_def grid_map2_nth)
  have iff: "(cw_w1 ?V ?H = 0 \<and> cw_w2 ?V ?H = 0) = (mesh_lin ?V = 1 \<and> mesh_lin ?H = 1)"
    by (auto simp: cw_w1_eq_0 cw_w2_eq_0)
  show ?thesis
    unfolding Let_def cell
    using cross_weighted_cell_cases [OF assms(5,6), of k] mesh_lin_pos [of ?V] mesh_lin_pos [of ?H]
      mesh_lin_le_1 [OF assms(5)] mesh_lin_le_1 [OF assms(6)] iff
    by (auto simp: mesh_lin_eq_1 cw_w1_def cw_w2_def)
qed

text \<open>
  C5. Wherever both normalized grid values are at most 0, the cross-weighted value before
  denormalization is a number at most 0.
\<close>

theorem cross_weighted_bounded:
  assumes "i < length Vg" and "i < length Hg" and "j < length (Vg ! i)" and "j < length (Hg ! i)"
    and "Vg ! i ! j \<le> 0" and "Hg ! i ! j \<le> 0"
  shows "\<exists>r. cross_weighted k Vg Hg ! i ! j = Some r \<and> r \<le> 0"
proof -
  have "cross_weighted k Vg Hg ! i ! j = cross_weighted_cell k (Vg ! i ! j) (Hg ! i ! j)"
    using assms(1-4) by (simp add: cross_weighted_def grid_map2_nth)
  then show ?thesis using cross_weighted_cell_nonpos [OF assms(5,6), of k] by simp
qed

text \<open>
  C4. The guard of line 69 tests the weights, not the denominator. At the cell
  \<open>V = H = -2000\<close> with \<open>k = 2\<close> both weights are different from zero, so the guard does
  not fire, and the numerator is negative; the exact sum \<open>w1^2 + w2^2\<close> is positive but
  smaller than \<open>2^-1075\<close>, half of the least positive double, so in double precision the
  sum is \<open>0.0\<close> and the source divides a negative number by zero: the cell of the
  returned grid is \<open>-inf\<close>. The lemma gives the exact quantities; the rounding to
  \<open>0.0\<close> is IEEE arithmetic and is not part of this model.
\<close>

lemma cross_bound:
  fixes P Q :: real
  assumes "0 < P" "0 < Q" "2 * P < Q"
  shows "2 * (1 / Q) < 1 / P"
  using assms by (simp add: field_simps)

lemma tiny_square:
  fixes b :: real
  assumes "1 < b"
  shows "0 < 1 / b * (1 - 1 / b) \<and>
         0 < (1 / b * (1 - 1 / b))\<^sup>2 + (1 / b * (1 - 1 / b))\<^sup>2 \<and>
         (1 / b * (1 - 1 / b))\<^sup>2 + (1 / b * (1 - 1 / b))\<^sup>2 < 2 * (1 / b\<^sup>2)"
proof -
  define a where "a = 1 / b"
  have a0: "0 < a" and a1: "a < 1" using assms by (simp_all add: a_def)
  have w0: "0 < a * (1 - a)" using a0 a1 by simp
  have w1: "a * (1 - a) < a" using a0 a1 by simp
  have sq: "(a * (1 - a))\<^sup>2 < a\<^sup>2" using w0 w1 by (intro power_strict_mono) simp_all
  have a2: "a\<^sup>2 = 1 / b\<^sup>2" by (simp add: a_def power_divide)
  have pos: "0 < (a * (1 - a))\<^sup>2" using w0 by (rule zero_less_power)
  from sq pos w0 show ?thesis unfolding a2 [symmetric] a_def [symmetric] by simp
qed

lemma two_ten: "2 * (2::real) ^ 1075 < (10 ^ 200)\<^sup>2"
proof -
  have "2 * (2::real) ^ 1075 = 2 ^ Suc 1075" by (simp only: power_Suc)
  also have "\<dots> \<le> 2 ^ (3 * (200 * 2))" by (rule power_increasing) simp_all
  also have "\<dots> = ((2::real) ^ 3) ^ (200 * 2)" by (rule power_mult)
  also have "\<dots> < 10 ^ (200 * 2)" by (rule power_strict_mono) simp_all
  also have "\<dots> = ((10::real) ^ 200)\<^sup>2" by (rule power_mult)
  finally show ?thesis .
qed

lemma cross_weighted_underflow_cell:
  "cw_w1 (- 2000) (- 2000) \<noteq> 0 \<and> cw_w2 (- 2000) (- 2000) \<noteq> 0 \<and>
   (- 2000) * cw_w1 (- 2000) (- 2000) + (- 2000) * cw_w2 (- 2000) (- 2000) < 0 \<and>
   0 < (cw_w1 (- 2000) (- 2000))\<^sup>2 + (cw_w2 (- 2000) (- 2000))\<^sup>2 \<and>
   (cw_w1 (- 2000) (- 2000))\<^sup>2 + (cw_w2 (- 2000) (- 2000))\<^sup>2 < 1 / 2 ^ 1075"
proof -
  have d: "(- 2000 :: real) / 10 = - 200" by simp
  have ml: "mesh_lin (- 2000) = 1 / 10 ^ 200"
    unfolding mesh_lin_def d by (simp only: powr_neg_numeral)
  have w: "cw_w1 (- 2000) (- 2000) = 1 / 10 ^ 200 * (1 - 1 / 10 ^ 200)"
    "cw_w2 (- 2000) (- 2000) = 1 / 10 ^ 200 * (1 - 1 / 10 ^ 200)"
    unfolding cw_w1_def cw_w2_def ml by (rule refl)+
  have b: "(1::real) < 10 ^ 200" by (rule one_less_power) simp_all
  note t = tiny_square [OF b]
  have p: "(0::real) < 2 ^ 1075" by (rule zero_less_power) simp
  have q: "(0::real) < (10 ^ 200)\<^sup>2" by (rule zero_less_power, rule zero_less_power) simp
  define x :: real where "x = 1 / 10 ^ 200 * (1 - 1 / 10 ^ 200)"
  from t have x0: "0 < x" and xs: "0 < x\<^sup>2 + x\<^sup>2"
    and xu: "x\<^sup>2 + x\<^sup>2 < 2 * (1 / (10 ^ 200)\<^sup>2)"
    unfolding x_def by blast+
  from xu cross_bound [OF p q two_ten] have xv: "x\<^sup>2 + x\<^sup>2 < 1 / 2 ^ 1075"
    by (rule less_trans)
  from x0 have n: "(- 2000) * x + (- 2000) * x < 0" by simp
  from x0 have z: "x \<noteq> 0" by simp
  show ?thesis unfolding w x_def [symmetric] by (intro conjI z n xs xv)
qed

text \<open>
  An input that reaches this cell: it passes every check, its maximum directivity is 0,
  and the preprocessed grids hold \<open>V = H = -2000\<close> in row 1 (\<open>\<phi> = 90\<close>), column 1
  (\<open>\<theta> = 0\<close>).
\<close>

lemma cross_weighted_underflow_input:
  "check_repeated_points [0, - 2000] [90, 0] ''el'' = Inr () \<and>
   check_repeated_points [0, - 2000] [0, 90] ''az'' = Inr () \<and>
   check_reconstruction_requirements [0, - 2000] [90, 0] [0, - 2000] [0, 90] 10 3 (1, 3)
     = Inr [] \<and>
   max_directivity [0, - 2000] [0, - 2000] = 0 \<and>
   preprocess_data [0, - 2000] [90, 0] [0, - 2000] [0, 90] ''CrossWeighted''
     = Inr ([[0, - 2000], [0, - 2000]], [90, 0], [[0, 0], [- 2000, - 2000]], [0, 90])"
  by (simp add: pipeline_defs prim_defs Let_def upt_conv_Cons eval_nat_numeral)

subsection \<open>Cross-slice agreement\<close>

lemma np_min_in: "xs \<noteq> [] \<Longrightarrow> np_min xs \<in> set xs"
  by (simp add: np_min_Min)

lemma np_argmin_less: "xs \<noteq> [] \<Longrightarrow> np_argmin xs < length xs"
proof -
  assume "xs \<noteq> []"
  then have "np_min xs \<in> set xs" by (rule np_min_in)
  then have "takeWhile (\<lambda>x. x \<noteq> np_min xs) xs \<noteq> xs"
    by (auto simp: takeWhile_eq_all_conv)
  moreover have "length (takeWhile (\<lambda>x. x \<noteq> np_min xs) xs) \<le> length xs"
    by (rule length_takeWhile_le)
  ultimately show ?thesis
    unfolding np_argmin_def
    by (metis le_neq_implies_less takeWhile_eq_take take_all_iff order_refl)
qed

lemma bs_index_less: "angles \<noteq> [] \<Longrightarrow> bs_index angles bs < length angles"
  using np_argmin_less [of "map (\<lambda>a. \<bar>a - bs\<bar>) angles"] by (simp add: bs_index_def)

lemma combine_slices_total:
  assumes "v \<noteq> []" "h \<noteq> []" "length v = length theta" "length h = length phi"
    and "method \<in> {''Summing'', ''CrossWeighted''}"
  shows "\<exists>pat theta_out phi_out.
           combine_slices v theta h phi method k ws = Inr (pat, theta_out, phi_out, ws)"
  using assms
  by (auto simp: combine_slices_def preprocess_data_def Let_def normalize_slice_def
        np_meshgrid_def)

text \<open>
  The thresholds. Once the earlier checks of \<open>check_reconstruction_requirements\<close> have
  passed, the check compares the gains at the indices \<open>bs_index theta 90\<close> and
  \<open>bs_index phi 0\<close>: it fails with \<open>SliceIntersectionMismatch\<close> if and only if their
  absolute difference exceeds the error threshold (the second element of the pair), it
  returns the warning \<open>SliceIntersectionDivergence\<close> if and only if the difference
  exceeds the warn threshold (the first element) but not the error threshold, and it
  returns no warning if and only if the difference exceeds neither. Whatever it returns
  without failing, the call runs to completion (for a known method and slices that pass
  the duplicate-angle check) and hands the same warnings back.
\<close>

lemma cross_slice_thresholds:
  assumes "theta \<noteq> []" and "phi \<noteq> []"
    and "length vert_slice = length theta" and "length horiz_slice = length phi"
    and "min_from_bs theta 90 \<le> tol_angle" and "min_from_bs phi 0 \<le> tol_angle"
    and "np_max vert_slice - vert_slice ! bs_index theta 90 \<le> tol_gain"
    and "np_max horiz_slice - horiz_slice ! bs_index phi 0 \<le> tol_gain"
  shows "(let d = \<bar>vert_slice ! bs_index theta 90 - horiz_slice ! bs_index phi 0\<bar>;
              r = check_reconstruction_requirements vert_slice theta horiz_slice phi
                    tol_angle tol_gain (warn, err)
          in (r = Inl SliceIntersectionMismatch) = (err < d) \<and>
             (r = Inr [SliceIntersectionDivergence]) = (\<not> err < d \<and> warn < d) \<and>
             (r = Inr []) = (\<not> err < d \<and> \<not> warn < d) \<and>
             (\<forall>ws. r = Inr ws \<and>
                   check_repeated_points vert_slice theta ''el'' = Inr () \<and>
                   check_repeated_points horiz_slice phi ''az'' = Inr () \<and>
                   method \<in> {''Summing'', ''CrossWeighted''} \<longrightarrow>
                   (\<exists>pat theta_out phi_out.
                      pattern_from_slices vert_slice theta (HVector horiz_slice) (Some phi)
                        method k tol_angle tol_gain (warn, err)
                      = Inr (pat, theta_out, phi_out, ws))))"
proof -
  have ne: "vert_slice \<noteq> []" "horiz_slice \<noteq> []" using assms(1-4) by auto
  have ix: "bs_index theta 90 < length vert_slice" "bs_index phi 0 < length horiz_slice"
    using assms(1-4) by (simp_all add: bs_index_less)
  let ?d = "\<bar>vert_slice ! bs_index theta 90 - horiz_slice ! bs_index phi 0\<bar>"
  have r: "check_reconstruction_requirements vert_slice theta horiz_slice phi
             tol_angle tol_gain (warn, err) =
           (if err < ?d then Inl SliceIntersectionMismatch
            else if warn < ?d then Inr [SliceIntersectionDivergence] else Inr [])"
    using assms ne ix by (simp add: check_reconstruction_requirements_def)
  have run: "\<exists>pat theta_out phi_out.
               pattern_from_slices vert_slice theta (HVector horiz_slice) (Some phi)
                 method k tol_angle tol_gain (warn, err) = Inr (pat, theta_out, phi_out, ws)"
    if "check_reconstruction_requirements vert_slice theta horiz_slice phi
          tol_angle tol_gain (warn, err) = Inr ws"
      and "check_repeated_points vert_slice theta ''el'' = Inr ()"
      and "check_repeated_points horiz_slice phi ''az'' = Inr ()"
      and "method \<in> {''Summing'', ''CrossWeighted''}" for ws
    using that assms(3,4) combine_slices_total [OF ne assms(3,4) that(4), of k ws]
    by (simp add: pattern_from_slices_def materialize_horiz_def)
  show ?thesis
    unfolding Let_def using run by (simp add: r)
qed

lemma np_argmin_min: "xs \<noteq> [] \<Longrightarrow> xs ! np_argmin xs = np_min xs"
  using np_argmin_less [of xs] nth_length_takeWhile [of "\<lambda>x. x \<noteq> np_min xs" xs]
  by (simp add: np_argmin_def)

lemma np_min_le: "x \<in> set xs \<Longrightarrow> np_min xs \<le> x"
  by (cases "xs = []") (simp_all add: np_min_Min)

lemma np_argmin_first: "j < np_argmin xs \<Longrightarrow> xs ! j \<noteq> np_min xs"
  unfolding np_argmin_def
  using takeWhile_nth [of j "\<lambda>x. x \<noteq> np_min xs" xs]
    nth_mem [of j "takeWhile (\<lambda>x. x \<noteq> np_min xs) xs"]
    set_takeWhileD [of "xs ! j" "\<lambda>x. x \<noteq> np_min xs" xs]
  by auto

text \<open>
  The index compared: the first sample at the least plain distance \<open>\<bar>a - bs\<bar>\<close> from
  the boresight value. The distance is not taken modulo 360.
\<close>

lemma bs_index_nearest:
  assumes "angles \<noteq> []"
  shows "bs_index angles bs < length angles \<and>
         (\<forall>j<length angles. \<bar>angles ! bs_index angles bs - bs\<bar> \<le> \<bar>angles ! j - bs\<bar>) \<and>
         (\<forall>j<bs_index angles bs. \<bar>angles ! bs_index angles bs - bs\<bar> < \<bar>angles ! j - bs\<bar>)"
proof -
  define d where "d = map (\<lambda>a. \<bar>a - bs\<bar>) angles"
  have ne: "d \<noteq> []" using assms by (simp add: d_def)
  have len: "length d = length angles" by (simp add: d_def)
  have nth: "d ! j = \<bar>angles ! j - bs\<bar>" if "j < length angles" for j
    using that by (simp add: d_def)
  have ix: "bs_index angles bs = np_argmin d" by (simp add: bs_index_def d_def)
  have lt: "bs_index angles bs < length angles" using assms by (rule bs_index_less)
  have m: "\<bar>angles ! bs_index angles bs - bs\<bar> = np_min d"
    using np_argmin_min [OF ne] nth [OF lt] by (simp add: ix)
  have a: "\<bar>angles ! bs_index angles bs - bs\<bar> \<le> \<bar>angles ! j - bs\<bar>" if "j < length angles" for j
  proof -
    from that len have "d ! j \<in> set d" by simp
    from np_min_le [OF this] show ?thesis unfolding m nth [OF that] .
  qed
  have b: "\<bar>angles ! bs_index angles bs - bs\<bar> < \<bar>angles ! j - bs\<bar>" if "j < bs_index angles bs" for j
  proof -
    from that lt have jl: "j < length angles" by simp
    from that have "d ! j \<noteq> np_min d" unfolding ix by (rule np_argmin_first)
    then have "\<bar>angles ! j - bs\<bar> \<noteq> np_min d" unfolding nth [OF jl] .
    with a [OF jl] show ?thesis unfolding m by simp
  qed
  from lt a b show ?thesis by blast
qed

text \<open>
  C9. The gains compared are those at the least plain distance from boresight, not at
  the least angular distance. With \<open>\<phi> = [360, 1]\<close> the sample at 360 is at boresight
  (the coverage check of the same function measures its distance as 0), yet the gain
  compared is the one at \<open>\<phi> = 1\<close>. With horizontal gains \<open>[0, -2]\<close> and vertical
  boresight gain 0 the two slices agree exactly at boresight and the call still warns;
  with horizontal gains \<open>[1.5, -1.5]\<close> and vertical boresight gain 2 they differ by
  0.5 at boresight and the call fails with \<open>SliceIntersectionMismatch\<close>, while the
  same slices given as \<open>\<phi> = [0, 1]\<close> pass without a warning.
\<close>

theorem cross_slice_agreement_unwrapped:
  "min_from_bs [360, 1] 0 = 0 \<and> bs_index [360, 1] 0 = 1 \<and>
   check_reconstruction_requirements [0] [90] [0, -2] [360, 1] 10 3 (1, 3)
     = Inr [SliceIntersectionDivergence] \<and>
   pattern_from_slices [0] [90] (HVector [0, -2]) (Some [360, 1]) ''Summing'' 2 10 3 (1, 3)
     = Inr ([[Some 0], [Some (-2)]], [90], [360, 1], [SliceIntersectionDivergence]) \<and>
   pattern_from_slices [2] [90] (HVector [1.5, -1.5]) (Some [360, 1]) ''Summing'' 2 10 3 (1, 3)
     = Inl SliceIntersectionMismatch \<and>
   pattern_from_slices [2] [90] (HVector [1.5, -1.5]) (Some [0, 1]) ''Summing'' 2 10 3 (1, 3)
     = Inr ([[Some 1.5], [Some (-1.5)]], [90], [0, 1], [])"
  by (simp add: pipeline_defs prim_defs Let_def upt_conv_Cons)

subsection \<open>Duplicate angles\<close>


lemma set_group_vals:
  assumes "length vals = length angles"
  shows "set (group_vals vals angles u) =
           {vals ! i | i. i < length angles \<and> np_round (angles ! i) = u}"
  using assms
  by (auto simp: group_vals_def mask_select_def in_set_zip image_iff) force

lemma length_np_unique: "length (np_unique xs) = card (set xs)"
  by (simp add: np_unique_def length_remdups_card_conv)

lemma set_np_unique: "set (np_unique xs) = set xs"
  by (simp add: np_unique_def)

lemma group_inconsistent:
  assumes "length vals = length angles"
  shows "(1 < length (np_unique (group_vals vals angles u))) =
         (\<exists>i<length angles. \<exists>j<length angles.
            np_round (angles ! i) = u \<and> np_round (angles ! j) = u \<and> vals ! i \<noteq> vals ! j)"
proof -
  let ?G = "set (group_vals vals angles u)"
  have "(1 < card ?G) = (\<not> card ?G \<le> Suc 0)" by auto
  also have "\<dots> = (\<not> (\<forall>a\<in>?G. \<forall>b\<in>?G. a = b))"
    by (simp add: card_le_Suc0_iff_eq)
  also have "\<dots> = (\<exists>i<length angles. \<exists>j<length angles.
            np_round (angles ! i) = u \<and> np_round (angles ! j) = u \<and> vals ! i \<noteq> vals ! j)"
    unfolding set_group_vals [OF assms] by blast
  finally show ?thesis by (simp add: length_np_unique)
qed

lemma check_repeated_points_eq:
  assumes "length vals = length angles"
  shows "check_repeated_points vals angles s =
           (let us = np_unique (map np_round angles);
                bad = (\<lambda>u. 1 < length (np_unique (group_vals vals angles u)))
            in if \<exists>u\<in>set us. bad u
               then Inl (InconsistentDuplicateAngle s (hd (filter bad us)))
               else Inr ())"
  using assms
  by (simp add: check_repeated_points_def Let_def list_ex_iff mask_select_map)

lemma hd_filter_in: "\<exists>u\<in>set us. P u \<Longrightarrow> hd (filter P us) \<in> set us \<and> P (hd (filter P us))"
proof -
  assume "\<exists>u\<in>set us. P u"
  then have "filter P us \<noteq> []" by (simp add: filter_empty_conv)
  then have "hd (filter P us) \<in> set (filter P us)" by (rule hd_in_set)
  then show ?thesis by simp
qed

text \<open>
  C8. For a slice with as many gains as angles, the duplicate-angle check fails with
  \<open>InconsistentDuplicateAngle\<close> if and only if two samples whose angles round to the
  same whole degree have different gains, and passes otherwise; the reported angle is the
  rounded angle of such a pair. Two samples at 10.0 and 10.4 degrees with different gains
  raise the error (reporting 10); with identical gains they pass.
\<close>

theorem duplicate_angle_check:
  assumes "length vals = length angles"
  shows "((\<exists>a. check_repeated_points vals angles s = Inl (InconsistentDuplicateAngle s a)) =
          (\<exists>i<length angles. \<exists>j<length angles.
             np_round (angles ! i) = np_round (angles ! j) \<and> vals ! i \<noteq> vals ! j)) \<and>
         ((check_repeated_points vals angles s = Inr ()) =
          (\<not> (\<exists>i<length angles. \<exists>j<length angles.
                np_round (angles ! i) = np_round (angles ! j) \<and> vals ! i \<noteq> vals ! j))) \<and>
         (\<forall>e. check_repeated_points vals angles s = Inl e \<longrightarrow>
              (\<exists>i<length angles. \<exists>j<length angles.
                 e = InconsistentDuplicateAngle s (np_round (angles ! i)) \<and>
                 np_round (angles ! i) = np_round (angles ! j) \<and> vals ! i \<noteq> vals ! j)) \<and>
         (g1 \<noteq> g2 \<longrightarrow>
            check_repeated_points [g1, g2] [10.0, 10.4] s = Inl (InconsistentDuplicateAngle s 10)) \<and>
         check_repeated_points [g1, g1] [10.0, 10.4] s = Inr ()"
proof -
  define us where "us = np_unique (map np_round angles)"
  define bad where "bad = (\<lambda>u. 1 < length (np_unique (group_vals vals angles u)))"
  define R where "R = (\<exists>i<length angles. \<exists>j<length angles.
             np_round (angles ! i) = np_round (angles ! j) \<and> vals ! i \<noteq> vals ! j)"
  have bad: "bad u = (\<exists>i<length angles. \<exists>j<length angles.
            np_round (angles ! i) = u \<and> np_round (angles ! j) = u \<and> vals ! i \<noteq> vals ! j)" for u
    unfolding bad_def by (rule group_inconsistent [OF assms])
  have ex: "(\<exists>u\<in>set us. bad u) = R"
  proof
    assume "\<exists>u\<in>set us. bad u"
    then obtain u where "bad u" by blast
    then show R unfolding bad R_def by metis
  next
    assume R
    then obtain i j where ij: "i < length angles" "j < length angles"
      "np_round (angles ! i) = np_round (angles ! j)" "vals ! i \<noteq> vals ! j"
      unfolding R_def by blast
    then have "bad (np_round (angles ! j))" unfolding bad by blast
    moreover have "np_round (angles ! j) \<in> set us"
      using ij(2) by (simp add: us_def set_np_unique)
    ultimately show "\<exists>u\<in>set us. bad u" by blast
  qed
  have eq: "check_repeated_points vals angles s =
              (if R then Inl (InconsistentDuplicateAngle s (hd (filter bad us))) else Inr ())"
    using check_repeated_points_eq [OF assms, of s]
    unfolding Let_def us_def [symmetric] bad_def [symmetric] ex by simp
  have rep: "\<exists>i<length angles. \<exists>j<length angles.
               hd (filter bad us) = np_round (angles ! i) \<and>
               np_round (angles ! i) = np_round (angles ! j) \<and> vals ! i \<noteq> vals ! j" if "R"
  proof -
    from that ex have "\<exists>u\<in>set us. bad u" by simp
    from hd_filter_in [OF this] have "bad (hd (filter bad us))" by simp
    then show ?thesis unfolding bad by metis
  qed
  have c1: "check_repeated_points [g1, g2] [10.0, 10.4] s = Inl (InconsistentDuplicateAngle s 10)"
    if "g1 \<noteq> g2"
    using that
    by (simp add: check_repeated_points_def group_vals_def np_unique_def mask_select_def
          np_round_def Let_def)
  have c2: "check_repeated_points [g1, g1] [10.0, 10.4] s = Inr ()"
    by (simp add: check_repeated_points_def group_vals_def np_unique_def mask_select_def
          np_round_def Let_def)
  have p1: "(\<exists>a. check_repeated_points vals angles s = Inl (InconsistentDuplicateAngle s a)) = R"
    unfolding eq by simp
  have p2: "(check_repeated_points vals angles s = Inr ()) = (\<not> R)"
    unfolding eq by simp
  have p3: "\<forall>e. check_repeated_points vals angles s = Inl e \<longrightarrow>
              (\<exists>i<length angles. \<exists>j<length angles.
                 e = InconsistentDuplicateAngle s (np_round (angles ! i)) \<and>
                 np_round (angles ! i) = np_round (angles ! j) \<and> vals ! i \<noteq> vals ! j)"
  proof (intro allI impI)
    fix e
    assume e: "check_repeated_points vals angles s = Inl e"
    then have r: R unfolding eq by (simp split: if_splits)
    with e have "e = InconsistentDuplicateAngle s (hd (filter bad us))"
      unfolding eq by simp
    with rep [OF r] show "\<exists>i<length angles. \<exists>j<length angles.
                 e = InconsistentDuplicateAngle s (np_round (angles ! i)) \<and>
                 np_round (angles ! i) = np_round (angles ! j) \<and> vals ! i \<noteq> vals ! j"
      by blast
  qed
  from c1 have c1': "g1 \<noteq> g2 \<longrightarrow>
     check_repeated_points [g1, g2] [10.0, 10.4] s = Inl (InconsistentDuplicateAngle s 10)"
    by (rule impI)
  show ?thesis
    by (intro conjI p1 [unfolded R_def] p2 [unfolded R_def] p3 c1' c2)
qed

theorem duplicate_angle_check_witness:
  "length [1, 2 :: real] = length [10.0, 10.4 :: real] \<and>
   (\<exists>a. check_repeated_points [1, 2] [10.0, 10.4] ''el'' = Inl (InconsistentDuplicateAngle ''el'' a)) \<and>
   check_repeated_points [1, 2] [10.0, 10.4] ''el'' \<noteq> Inr ()"
proof -
  have len: "length [1, 2 :: real] = length [10.0, 10.4 :: real]" by simp
  have r: "\<exists>i<length [10.0, 10.4 :: real]. \<exists>j<length [10.0, 10.4 :: real].
             np_round ([10.0, 10.4] ! i) = np_round ([10.0, 10.4] ! j) \<and>
             [1, 2 :: real] ! i \<noteq> [1, 2] ! j"
    by (rule exI [of _ 0], simp, rule exI [of _ 1], simp add: np_round_def Let_def)
  note t = duplicate_angle_check [OF len, of "''el''" 0 0]
  have a: "\<exists>a. check_repeated_points [1, 2] [10.0, 10.4] ''el''
                     = Inl (InconsistentDuplicateAngle ''el'' a)"
    by (rule iffD2 [OF conjunct1 [OF t] r])
  then have b: "check_repeated_points [1, 2] [10.0, 10.4] ''el'' \<noteq> Inr ()" by auto
  show ?thesis by (intro conjI len a b)
qed

subsection \<open>Shape and orientation of the grids\<close>

text \<open>
  C1 (as amended). Whenever \<open>preprocess_data\<close> returns, both grids have
  \<open>|\<phi>|\<close> rows and \<open>|\<theta>_subset|\<close> columns: the row index runs over \<open>\<phi>_out\<close> and the
  column index over \<open>\<theta>_out\<close>. The vertical grid repeats the \<open>\<theta>\<close>-subset gains in every
  row, the horizontal grid holds the gain of \<open>\<phi> ! j\<close> throughout row \<open>j\<close>. The pattern
  that \<open>pattern_from_slices\<close> returns has the same shape.
\<close>

theorem grid_rows_are_phi:
  "(preprocess_data vert_slice_norm theta horiz_slice_norm phi method =
      Inr (vert_mesh_log, theta_out, horiz_mesh_log, phi_out) \<longrightarrow>
    length vert_mesh_log = length phi_out \<and> length horiz_mesh_log = length phi_out \<and>
    length theta_out =
      length (mask_select vert_slice_norm (map (\<lambda>t. np_mod t 360 \<le> 180) theta)) \<and>
    (\<forall>j<length phi_out.
       length (vert_mesh_log ! j) = length theta_out \<and>
       length (horiz_mesh_log ! j) = length theta_out \<and>
       (\<forall>i<length theta_out.
          vert_mesh_log ! j ! i =
            mask_select vert_slice_norm (map (\<lambda>t. np_mod t 360 \<le> 180) theta) ! i \<and>
          horiz_mesh_log ! j ! i = horiz_slice_norm ! j))) \<and>
   (pattern_from_slices vert_slice theta' horiz_arg phi_arg method' k t1 t2 t3 =
      Inr (pat3D, theta_out', phi_out', ws) \<longrightarrow>
    length pat3D = length phi_out' \<and>
    (\<forall>j<length phi_out'. length (pat3D ! j) = length theta_out'))"
proof (rule conjI; rule impI)
  assume "preprocess_data vert_slice_norm theta horiz_slice_norm phi method =
      Inr (vert_mesh_log, theta_out, horiz_mesh_log, phi_out)"
  from preprocess_grid_shape [OF this]
  show "length vert_mesh_log = length phi_out \<and> length horiz_mesh_log = length phi_out \<and>
    length theta_out =
      length (mask_select vert_slice_norm (map (\<lambda>t. np_mod t 360 \<le> 180) theta)) \<and>
    (\<forall>j<length phi_out.
       length (vert_mesh_log ! j) = length theta_out \<and>
       length (horiz_mesh_log ! j) = length theta_out \<and>
       (\<forall>i<length theta_out.
          vert_mesh_log ! j ! i =
            mask_select vert_slice_norm (map (\<lambda>t. np_mod t 360 \<le> 180) theta) ! i \<and>
          horiz_mesh_log ! j ! i = horiz_slice_norm ! j))" .
next
  assume "pattern_from_slices vert_slice theta' horiz_arg phi_arg method' k t1 t2 t3 =
      Inr (pat3D, theta_out', phi_out', ws)"
  from pattern_shape [OF this]
  show "length pat3D = length phi_out' \<and>
    (\<forall>j<length phi_out'. length (pat3D ! j) = length theta_out')" .
qed

theorem grid_rows_are_phi_witness:
  "preprocess_data [-20, -6, 0, -6, -20] [0, 45, 90, 135, 180] [0, -10, -20, -10]
       [0, 90, 180, 270] ''Summing''
     = Inr (replicate 4 [-20, -6, 0, -6, -20], [0, 45, 90, 135, 180],
            map (replicate 5) [0, -10, -20, -10], [0, 90, 180, 270]) \<and>
   length (replicate 4 [-20, -6, 0, -6, -20 :: real]) = length [0, 90, 180, 270 :: real] \<and>
   length (replicate 4 [-20, -6, 0, -6, -20 :: real] ! 1) = length [0, 45, 90, 135, 180 :: real] \<and>
   pattern_from_slices [-20, -6, 0, -6, -20] [0, 45, 90, 135, 180]
       (HVector [0, -10, -20, -10]) (Some [0, 90, 180, 270]) ''Summing'' 2 10 3 (1, 3) =
     Inr (map (\<lambda>h. map (\<lambda>v. Some (v + h)) [-20, -6, 0, -6, -20]) [0, -10, -20, -10],
          [0, 45, 90, 135, 180], [0, 90, 180, 270], []) \<and>
   length (map (\<lambda>h. map (\<lambda>v. Some (v + h)) [-20, -6, 0, -6, -20 :: real]) [0, -10, -20, -10 :: real])
     = length [0, 90, 180, 270 :: real]"
proof -
  have p: "preprocess_data [-20, -6, 0, -6, -20] [0, 45, 90, 135, 180] [0, -10, -20, -10]
       [0, 90, 180, 270] ''Summing''
     = Inr (replicate 4 [-20, -6, 0, -6, -20], [0, 45, 90, 135, 180],
            map (replicate 5) [0, -10, -20, -10], [0, 90, 180, 270])"
    by (simp add: preprocess_data_def prim_defs Let_def upt_conv_Cons eval_nat_numeral)
  have q: "pattern_from_slices [-20, -6, 0, -6, -20] [0, 45, 90, 135, 180]
       (HVector [0, -10, -20, -10]) (Some [0, 90, 180, 270]) ''Summing'' 2 10 3 (1, 3) =
     Inr (map (\<lambda>h. map (\<lambda>v. Some (v + h)) [-20, -6, 0, -6, -20]) [0, -10, -20, -10],
          [0, 45, 90, 135, 180], [0, 90, 180, 270], [])"
    by (simp add: pipeline_defs prim_defs Let_def upt_conv_Cons)
  note t = grid_rows_are_phi [of "[-20, -6, 0, -6, -20]" "[0, 45, 90, 135, 180]"
      "[0, -10, -20, -10]" "[0, 90, 180, 270]" "''Summing''"
      "replicate 4 [-20, -6, 0, -6, -20]" "[0, 45, 90, 135, 180]"
      "map (replicate 5) [0, -10, -20, -10]" "[0, 90, 180, 270]"
      "[-20, -6, 0, -6, -20]" "[0, 45, 90, 135, 180]" "HVector [0, -10, -20, -10]"
      "Some [0, 90, 180, 270]" "''Summing''" 2 10 3 "(1, 3)"
      "map (\<lambda>h. map (\<lambda>v. Some (v + h)) [-20, -6, 0, -6, -20]) [0, -10, -20, -10]"
      "[0, 45, 90, 135, 180]" "[0, 90, 180, 270]" "[]"]
  from t p have a: "length (replicate 4 [-20, -6, 0, -6, -20 :: real]) = length [0, 90, 180, 270 :: real]"
    by blast
  from t p have "\<forall>j<length [0, 90, 180, 270 :: real].
      length (replicate 4 [-20, -6, 0, -6, -20 :: real] ! j) = length [0, 45, 90, 135, 180 :: real]"
    by blast
  then have b: "length (replicate 4 [-20, -6, 0, -6, -20 :: real] ! 1) = length [0, 45, 90, 135, 180 :: real]"
    by simp
  from t q have c: "length (map (\<lambda>h. map (\<lambda>v. Some (v + h)) [-20, -6, 0, -6, -20 :: real]) [0, -10, -20, -10 :: real])
     = length [0, 90, 180, 270 :: real]"
    by blast
  show ?thesis by (intro conjI p a b q c)
qed

text \<open>
  C1 as stated fails: with five \<open>\<theta>\<close> samples and four \<open>\<phi>\<close> samples the grids have four
  rows of five cells, not five rows of four, and the row index does not select the
  \<open>\<theta>\<close> sample.
\<close>

theorem grid_rows_are_theta_counterexample:
  "(case preprocess_data [-20, -6, 0, -6, -20] [0, 45, 90, 135, 180] [0, -10, -20, -10]
           [0, 90, 180, 270] ''Summing'' of
      Inl e \<Rightarrow> False
    | Inr (vert_mesh_log, theta_out, horiz_mesh_log, phi_out) \<Rightarrow>
        length theta_out = 5 \<and> length phi_out = 4 \<and>
        length vert_mesh_log \<noteq> length theta_out \<and>
        length (vert_mesh_log ! 0) \<noteq> length phi_out \<and>
        length horiz_mesh_log \<noteq> length theta_out \<and>
        vert_mesh_log ! 1 ! 0 \<noteq> [-20, -6, 0, -6, -20] ! 1 \<and>
        horiz_mesh_log ! 0 ! 1 \<noteq> [0, -10, -20, -10] ! 1) \<and>
   (case pattern_from_slices [-20, -6, 0, -6, -20] [0, 45, 90, 135, 180]
           (HVector [0, -10, -20, -10]) (Some [0, 90, 180, 270]) ''Summing'' 2 10 3 (1, 3) of
      Inl e \<Rightarrow> False
    | Inr (pat3D, theta_out, phi_out, ws) \<Rightarrow>
        length pat3D \<noteq> length theta_out \<and> length (pat3D ! 0) \<noteq> length phi_out)"
  by (simp add: pipeline_defs prim_defs Let_def upt_conv_Cons)

subsection \<open>The returned angle series\<close>

text \<open>
  C3 (as amended). The returned \<open>\<theta>_out\<close> consists of the input \<open>\<theta>\<close> values, unwrapped
  and in their input order, whose value wrapped into \<open>[0, 360)\<close> is at most 180; so the
  wrapped value of every element of \<open>\<theta>_out\<close> lies in \<open>[0, 180]\<close>. The returned \<open>\<phi>_out\<close>
  is the full \<open>\<phi>\<close> series as given (the default series when absent), unwrapped; the
  wrapped value of each element lies in \<open>[0, 360)\<close>.
\<close>

theorem angles_out_unwrapped:
  assumes "pattern_from_slices vert_slice theta horiz_arg phi_arg method k t1 t2 t3 =
             Inr (pat3D, theta_out, phi_out, ws)"
  shows "theta_out = filter (\<lambda>t. np_mod t 360 \<le> 180) theta \<and>
         (\<forall>t\<in>set theta_out. t \<in> set theta \<and> 0 \<le> np_mod t 360 \<and> np_mod t 360 \<le> 180) \<and>
         phi_out = (case phi_arg of None \<Rightarrow> default_phi | Some p \<Rightarrow> p) \<and>
         (\<forall>p\<in>set phi_out. 0 \<le> np_mod p 360 \<and> np_mod p 360 < 360)"
proof -
  let ?phi = "case phi_arg of None \<Rightarrow> default_phi | Some p \<Rightarrow> p"
  from pattern_from_slices_Inr [OF assms] obtain h ws' where
    c: "combine_slices vert_slice theta h ?phi method k ws' = Inr (pat3D, theta_out, phi_out, ws)"
    by blast
  from combine_slices_Inr [OF c] obtain vm hm where
    p: "preprocess_data (normalize_slice (max_directivity vert_slice h) vert_slice) theta
          (normalize_slice (max_directivity vert_slice h) h) ?phi method
        = Inr (vm, theta_out, hm, phi_out)"
    by blast
  note r = preprocess_data_Inr [OF p]
  show ?thesis
    using np_mod_range [of 360] by (simp add: r(4,5))
qed

theorem angles_out_unwrapped_witness:
  "pattern_from_slices [0, 0] [90, 450] (HVector [0, 0]) (Some [0, 360]) ''Summing'' 2 10 3 (1, 3)
     = Inr ([[Some 0, Some 0], [Some 0, Some 0]], [90, 450], [0, 360], []) \<and>
   [90, 450] = filter (\<lambda>t. np_mod t 360 \<le> 180) [90, 450] \<and>
   np_mod 450 360 \<le> 180"
proof -
  have q: "pattern_from_slices [0, 0] [90, 450] (HVector [0, 0]) (Some [0, 360]) ''Summing''
             2 10 3 (1, 3)
           = Inr ([[Some 0, Some 0], [Some 0, Some 0]], [90, 450], [0, 360], [])"
    by (simp add: pipeline_defs prim_defs Let_def upt_conv_Cons)
  note t = angles_out_unwrapped [OF q]
  from t have a: "[90, 450] = filter (\<lambda>t. np_mod t 360 \<le> 180) [90, 450]" by (rule conjunct1)
  from t have "\<forall>t\<in>set [90, 450 :: real]. t \<in> set [90, 450] \<and> 0 \<le> np_mod t 360 \<and> np_mod t 360 \<le> 180"
    by blast
  then have b: "np_mod 450 360 \<le> 180" by simp
  show ?thesis by (intro conjI q a b)
qed

text \<open>
  C3 as stated fails: \<open>\<theta> = 450\<close> wraps to 90 and is returned as 450, above 180;
  \<open>\<phi> = 360\<close> wraps to 0 and is returned as 360, outside \<open>[0, 360)\<close>.
\<close>

theorem angles_out_wrapped_counterexample:
  "(case pattern_from_slices [0, 0] [90, 450] (HVector [0, 0]) (Some [0, 360]) ''Summing''
           2 10 3 (1, 3) of
      Inl e \<Rightarrow> False
    | Inr (pat3D, theta_out, phi_out, ws) \<Rightarrow>
        theta_out ! 1 = 450 \<and> \<not> theta_out ! 1 \<le> 180 \<and>
        phi_out ! 1 = 360 \<and> \<not> phi_out ! 1 < 360)"
  by (simp add: pipeline_defs prim_defs Let_def upt_conv_Cons)

subsection \<open>Instances of the combiner and agreement theorems\<close>

lemma cross_weighted_singularity_exact_instance:
  "(0::nat) < length [[0 :: real]] \<and> (0::nat) < length ([[0 :: real]] ! 0) \<and>
   [[0 :: real]] ! 0 ! 0 \<le> 0 \<and>
   cw_w1 0 0 = 0 \<and> cw_w2 0 0 = 0 \<and> cross_weighted 2 [[0]] [[0]] ! 0 ! 0 = Some 0"
proof -
  have h: "(0::nat) < length [[0 :: real]]" "(0::nat) < length ([[0 :: real]] ! 0)"
    "[[0 :: real]] ! 0 ! 0 \<le> 0" by simp_all
  from cross_weighted_singularity_exact [OF h(1) h(1) h(2) h(2) h(3) h(3), of 2] h
  show ?thesis by (auto simp: Let_def split: if_splits)
qed

theorem cross_weighted_bounded_witness:
  "(0::nat) < length [[-10 :: real]] \<and> (0::nat) < length ([[-10 :: real]] ! 0) \<and>
   [[-10 :: real]] ! 0 ! 0 \<le> 0 \<and> [[0 :: real]] ! 0 ! 0 \<le> 0 \<and>
   (\<exists>r. cross_weighted 2 [[-10]] [[0]] ! 0 ! 0 = Some r \<and> r \<le> 0)"
proof -
  have h: "(0::nat) < length [[-10 :: real]]" "(0::nat) < length [[0 :: real]]"
    "(0::nat) < length ([[-10 :: real]] ! 0)" "(0::nat) < length ([[0 :: real]] ! 0)"
    "[[-10 :: real]] ! 0 ! 0 \<le> 0" "[[0 :: real]] ! 0 ! 0 \<le> 0" by simp_all
  from cross_weighted_bounded [OF h, of 2] h show ?thesis by blast
qed

lemma cross_slice_thresholds_instance:
  "check_reconstruction_requirements [0] [90] [-2] [0] 10 3 (1, 3)
     = Inr [SliceIntersectionDivergence] \<and>
   (\<exists>pat theta_out phi_out.
      pattern_from_slices [0] [90] (HVector [-2]) (Some [0]) ''Summing'' 2 10 3 (1, 3)
        = Inr (pat, theta_out, phi_out, [SliceIntersectionDivergence])) \<and>
   check_reconstruction_requirements [0] [90] [-5] [0] 10 6 (1, 3)
     = Inl SliceIntersectionMismatch"
proof -
  have i: "bs_index [90] 90 = 0" "bs_index [0] 0 = 0"
    by (simp_all add: bs_index_def np_argmin_def np_min_def)
  have m: "min_from_bs [90] 90 \<le> 10" "min_from_bs [0] 0 \<le> 10"
    by (simp_all add: min_from_bs_def np_min_def np_mod_def)
  have g: "np_max [0] - [0] ! bs_index [90] 90 \<le> 3" "np_max [-2] - [-2] ! bs_index [0] 0 \<le> 3"
     "np_max [0] - [0] ! bs_index [90] 90 \<le> 6" "np_max [-5] - [-5] ! bs_index [0] 0 \<le> 6"
    by (simp_all add: i np_max_def)
  have rp: "check_repeated_points [0] [90] ''el'' = Inr ()"
    "check_repeated_points [-2] [0] ''az'' = Inr ()"
    by (simp_all add: check_repeated_points_def group_vals_def prim_defs Let_def)
  note t = cross_slice_thresholds [of "[90]" "[0]" "[0]" "[-2]" 10 3 1 3 "''Summing''" 2,
      OF _ _ _ _ m g(1,2)]
  note u = cross_slice_thresholds [of "[90]" "[0]" "[0]" "[-5]" 10 6 1 3 "''Summing''" 2,
      OF _ _ _ _ m g(3,4)]
  have a: "check_reconstruction_requirements [0] [90] [-2] [0] 10 3 (1, 3)
     = Inr [SliceIntersectionDivergence]"
    using t by (simp add: Let_def i)
  have b: "\<exists>pat theta_out phi_out.
      pattern_from_slices [0] [90] (HVector [-2]) (Some [0]) ''Summing'' 2 10 3 (1, 3)
        = Inr (pat, theta_out, phi_out, [SliceIntersectionDivergence])"
    using t a rp by (simp add: Let_def i)
  have c: "check_reconstruction_requirements [0] [90] [-5] [0] 10 6 (1, 3)
     = Inl SliceIntersectionMismatch"
    using u by (simp add: Let_def i)
  show ?thesis by (intro conjI a b c)
qed

section \<open>Properties of the reader\<close>

lemma first_word_of_blank: "py_strip raw = [] \<Longrightarrow> first_word_of raw = []"
  by (simp add: first_word_of_def reduce_spaces_def py_split_def py_lower_def)

lemma msi_step_blank:
  "py_strip (lines ! line_num) = [] \<Longrightarrow> msi_step pf lines line_num st = Inr (line_num + 1, st)"
  by (simp add: msi_step_def)

lemma msi_step_dispatch:
  assumes "py_strip (lines ! line_num) \<noteq> []"
  shows "msi_step pf lines line_num st =
           msi_dispatch pf lines (line_num + 1) (first_word_of (lines ! line_num))
             (py_strip (drop (find_space (reduce_spaces (py_strip (lines ! line_num))))
                          (reduce_spaces (py_strip (lines ! line_num))))) st"
  using assms by (simp add: msi_step_def first_word_of_def Let_def)

lemma msi_dispatch_section_unbound:
  assumes "first_word \<in> {''horizontal'', ''vertical''}"
    and "optional_gain_value st = None" and "TransData st = None"
  shows "msi_dispatch pf lines line_num first_word rest_of_line st = Inl PyUnboundLocalError"
proof -
  from assms(1) consider "first_word = ''horizontal''" | "first_word = ''vertical''" by auto
  then show ?thesis
  proof cases
    case 1
    then show ?thesis
      using assms(2,3) by (simp add: msi_dispatch_def Let_def split: prod.splits)
  next
    case 2
    then show ?thesis
      using assms(2,3) by (simp add: msi_dispatch_def Let_def split: prod.splits)
  qed
qed

lemma ten_cases:
  assumes "a \<Longrightarrow> P" "b \<Longrightarrow> P" "c \<Longrightarrow> P" "d \<Longrightarrow> P" "e \<Longrightarrow> P" "f \<Longrightarrow> P" "g \<Longrightarrow> P"
    "h \<Longrightarrow> P" "i \<Longrightarrow> P"
    "\<not> a \<Longrightarrow> \<not> b \<Longrightarrow> \<not> c \<Longrightarrow> \<not> d \<Longrightarrow> \<not> e \<Longrightarrow> \<not> f \<Longrightarrow> \<not> g \<Longrightarrow> \<not> h \<Longrightarrow> \<not> i \<Longrightarrow> P"
  shows P
  using assms by blast

lemma msi_dispatch_other:
  assumes "first_word \<notin> {''gain'', ''horizontal'', ''vertical''}"
    and "msi_dispatch pf lines line_num first_word rest_of_line st = Inr (l', st')"
  shows "l' = line_num \<and> optional_gain_value st' = optional_gain_value st \<and>
         TransData st' = TransData st"
proof (rule ten_cases [where a = "first_word = ''name''" and b = "first_word = ''make''"
      and c = "first_word = ''h_width''" and d = "first_word = ''v_width''"
      and e = "first_word = ''front_to_back''" and f = "first_word = ''frequency''"
      and g = "first_word = ''tilt''" and h = "first_word = ''polarization''"
      and i = "first_word = ''comment''"])
  assume "first_word = ''name''"
  with assms(2) show ?thesis by (auto simp: msi_dispatch_def)
next
  assume "first_word = ''make''"
  with assms(2) show ?thesis by (auto simp: msi_dispatch_def)
next
  assume "first_word = ''h_width''"
  with assms(2) show ?thesis by (auto simp: msi_dispatch_def Let_def split: prod.splits)
next
  assume "first_word = ''v_width''"
  with assms(2) show ?thesis by (auto simp: msi_dispatch_def Let_def split: prod.splits)
next
  assume "first_word = ''front_to_back''"
  with assms(2) show ?thesis by (auto simp: msi_dispatch_def Let_def split: prod.splits)
next
  assume "first_word = ''frequency''"
  with assms(2) show ?thesis
    by (auto simp: msi_dispatch_def Let_def split: prod.splits option.splits)
next
  assume "first_word = ''tilt''"
  with assms(2) show ?thesis by (auto simp: msi_dispatch_def Let_def split: prod.splits)
next
  assume "first_word = ''polarization''"
  with assms(2) show ?thesis by (auto simp: msi_dispatch_def)
next
  assume "first_word = ''comment''"
  with assms(2) show ?thesis by (auto simp: msi_dispatch_def)
next
  assume "first_word \<noteq> ''name''" "first_word \<noteq> ''make''" "first_word \<noteq> ''h_width''"
    "first_word \<noteq> ''v_width''" "first_word \<noteq> ''front_to_back''"
    "first_word \<noteq> ''frequency''" "first_word \<noteq> ''tilt''"
    "first_word \<noteq> ''polarization''" "first_word \<noteq> ''comment''"
  with assms show ?thesis by (auto simp: msi_dispatch_def)
qed

lemma msi_step_section_unbound:
  assumes "section_header (lines ! line_num)"
    and "optional_gain_value st = None" and "TransData st = None"
  shows "msi_step pf lines line_num st = Inl PyUnboundLocalError"
proof -
  from assms(1) have fw: "first_word_of (lines ! line_num) \<in> {''horizontal'', ''vertical''}"
    by (simp add: section_header_def)
  then have "first_word_of (lines ! line_num) \<noteq> []" by auto
  then have "py_strip (lines ! line_num) \<noteq> []" using first_word_of_blank by blast
  from msi_step_dispatch [OF this] msi_dispatch_section_unbound [OF fw assms(2,3)]
  show ?thesis by simp
qed

lemma msi_step_other:
  assumes "\<not> section_header (lines ! line_num)" and "\<not> gain_line (lines ! line_num)"
    and "msi_step pf lines line_num st = Inr (l', st')"
  shows "l' = line_num + 1 \<and> optional_gain_value st' = optional_gain_value st \<and>
         TransData st' = TransData st"
proof (cases "py_strip (lines ! line_num) = []")
  case True
  from msi_step_blank [OF True] assms(3) show ?thesis by simp
next
  case False
  from assms(1,2) have "first_word_of (lines ! line_num) \<notin> {''gain'', ''horizontal'', ''vertical''}"
    by (simp add: section_header_def gain_line_def)
  from msi_dispatch_other [OF this] assms(3) show ?thesis
    unfolding msi_step_dispatch [OF False] by blast
qed

lemma msi_loop_raises:
  assumes "i < length lines" and "section_header (lines ! i)"
    and "\<forall>j. line_num \<le> j \<and> j < i \<longrightarrow> \<not> gain_line (lines ! j)"
    and "line_num \<le> i"
    and "optional_gain_value st = None" and "TransData st = None"
  shows "\<exists>e. msi_loop pf lines line_num st = Inl e"
  using assms(3-6)
proof (induction "i - line_num" arbitrary: line_num st)
  case 0
  then have "line_num = i" by simp
  with assms(1,2) msi_step_section_unbound [of lines i st pf] 0 show ?case
    by (subst msi_loop.simps) simp
next
  case (Suc k)
  then have lt: "line_num < i" by simp
  with assms(1) have inb: "line_num < length lines" by simp
  show ?case
  proof (cases "section_header (lines ! line_num)")
    case True
    with msi_step_section_unbound [of lines line_num st pf] Suc.prems inb show ?thesis
      by (subst msi_loop.simps) simp
  next
    case False
    from Suc.prems(1) lt have ng: "\<not> gain_line (lines ! line_num)" by simp
    show ?thesis
    proof (cases "msi_step pf lines line_num st")
      case (Inl e)
      with inb show ?thesis by (subst msi_loop.simps) simp
    next
      case (Inr r)
      obtain l' st' where r: "r = (l', st')" by (cases r)
      from msi_step_other [OF False ng Inr [unfolded r]] Suc.prems
      have st': "l' = line_num + 1" "optional_gain_value st' = None" "TransData st' = None"
        by simp_all
      have "\<exists>e. msi_loop pf lines l' st' = Inl e"
      proof (rule Suc.hyps(1))
        show "k = i - l'" using Suc.hyps(2) st'(1) by simp
        show "\<forall>j. l' \<le> j \<and> j < i \<longrightarrow> \<not> gain_line (lines ! j)"
          using Suc.prems(1) st'(1) by simp
        show "l' \<le> i" using lt st'(1) by simp
      qed (rule st'(2), rule st'(3))
      with Inr r inb show ?thesis by (subst msi_loop.simps) simp
    qed
  qed
qed


lemma msi_dispatch_section_gain:
  assumes "first_word \<in> {''horizontal'', ''vertical''}"
    and "optional_gain_value st = Some g"
    and "msi_dispatch pf lines line_num first_word rest_of_line st = Inr (l', st')"
  shows "TransData st' =
           Some (map (\<lambda>d. g - snd d) (fst (get_xy_coords pf (drop line_num lines) line_num []))) \<and>
         (if first_word = ''horizontal'' then Magnitude (Horizontal st') = TransData st'
          else Magnitude (Vertical st') = TransData st')"
proof -
  from assms(1) consider "first_word = ''horizontal''" | "first_word = ''vertical''" by auto
  then show ?thesis
  proof cases
    case 1
    with assms(2,3) show ?thesis
      by (auto simp: msi_dispatch_def Let_def split: prod.splits)
  next
    case 2
    with assms(2,3) show ?thesis
      by (auto simp: msi_dispatch_def Let_def split: prod.splits)
  qed
qed

lemma msi_step_section_gain:
  assumes "section_header (lines ! line_num)"
    and "optional_gain_value st = Some g"
    and "msi_step pf lines line_num st = Inr (l', st')"
  shows "TransData st' =
           Some (map (\<lambda>d. g - snd d)
                   (fst (get_xy_coords pf (drop (line_num + 1) lines) (line_num + 1) []))) \<and>
         (if first_word_of (lines ! line_num) = ''horizontal''
          then Magnitude (Horizontal st') = TransData st'
          else Magnitude (Vertical st') = TransData st')"
proof -
  from assms(1) have fw: "first_word_of (lines ! line_num) \<in> {''horizontal'', ''vertical''}"
    by (simp add: section_header_def)
  then have "first_word_of (lines ! line_num) \<noteq> []" by auto
  then have ne: "py_strip (lines ! line_num) \<noteq> []" using first_word_of_blank by blast
  from assms(3) show ?thesis
    unfolding msi_step_dispatch [OF ne] by (rule msi_dispatch_section_gain [OF fw assms(2)])
qed

text \<open>
  C10. If some line of the file opens a horizontal or vertical section and no earlier
  line is a gain line, \<open>msiread\<close> raises: it returns no result at all, so no magnitudes
  for that section. At the section header the loop stops with an unbound local
  \<^verbatim>\<open>TransData\<close> whenever no gain value has been read and no magnitude list has been
  computed before; when a gain value \<open>g\<close> has been read, the magnitude list of the section
  is computed, and each entry is \<open>g\<close> minus the second value of its data line.
\<close>

theorem section_without_gain_raises:
  assumes "i < length lines" and "section_header (lines ! i)"
    and "\<forall>j<i. \<not> gain_line (lines ! j)"
  shows "(\<exists>e. msiread pf lines = Inl (RuntimeError e)) \<and>
         (\<forall>st. optional_gain_value st = None \<and> TransData st = None \<longrightarrow>
               msi_step pf lines i st = Inl PyUnboundLocalError) \<and>
         (\<forall>st g l' st'.
            optional_gain_value st = Some g \<and> msi_step pf lines i st = Inr (l', st') \<longrightarrow>
            TransData st' =
              Some (map (\<lambda>d. g - snd d)
                      (fst (get_xy_coords pf (drop (i + 1) lines) (i + 1) []))) \<and>
            (if first_word_of (lines ! i) = ''horizontal''
             then Magnitude (Horizontal st') = TransData st'
             else Magnitude (Vertical st') = TransData st'))"
proof -
  have "\<exists>e. msi_loop pf lines 0 initial_state = Inl e"
    using assms by (intro msi_loop_raises [of i]) (simp_all add: initial_state_def)
  then have a: "\<exists>e. msiread pf lines = Inl (RuntimeError e)" by (auto simp: msiread_def)
  have b: "\<forall>st. optional_gain_value st = None \<and> TransData st = None \<longrightarrow>
               msi_step pf lines i st = Inl PyUnboundLocalError"
    using msi_step_section_unbound [OF assms(2)] by blast
  have c: "\<forall>st g l' st'.
            optional_gain_value st = Some g \<and> msi_step pf lines i st = Inr (l', st') \<longrightarrow>
            TransData st' =
              Some (map (\<lambda>d. g - snd d)
                      (fst (get_xy_coords pf (drop (i + 1) lines) (i + 1) []))) \<and>
            (if first_word_of (lines ! i) = ''horizontal''
             then Magnitude (Horizontal st') = TransData st'
             else Magnitude (Vertical st') = TransData st')"
    using msi_step_section_gain [OF assms(2)] by blast
  show ?thesis by (intro conjI a b c)
qed

lemmas str_defs = first_word_of_def reduce_spaces_def py_split_def py_strip_def py_lower_def
  py_lower_char_def find_space_def is_space_def section_header_def gain_line_def

theorem section_without_gain_raises_witness:
  "(1::nat) < length [''NAME  test'' @ [CHR 0x0A], ''HORIZONTAL 2'' @ [CHR 0x0A],
                      ''0 1'' @ [CHR 0x0A], ''1 2'' @ [CHR 0x0A]] \<and>
   section_header ([''NAME  test'' @ [CHR 0x0A], ''HORIZONTAL 2'' @ [CHR 0x0A],
                      ''0 1'' @ [CHR 0x0A], ''1 2'' @ [CHR 0x0A]] ! 1) \<and>
   \<not> gain_line ([''NAME  test'' @ [CHR 0x0A], ''HORIZONTAL 2'' @ [CHR 0x0A],
                      ''0 1'' @ [CHR 0x0A], ''1 2'' @ [CHR 0x0A]] ! 0) \<and>
   (\<exists>e. msiread pf0
          [''NAME  test'' @ [CHR 0x0A], ''HORIZONTAL 2'' @ [CHR 0x0A],
           ''0 1'' @ [CHR 0x0A], ''1 2'' @ [CHR 0x0A]] = Inl (RuntimeError e)) \<and>
   msi_step pf0 [''NAME  test'' @ [CHR 0x0A], ''HORIZONTAL 2'' @ [CHR 0x0A],
                 ''0 1'' @ [CHR 0x0A], ''1 2'' @ [CHR 0x0A]] 1 initial_state
     = Inl PyUnboundLocalError \<and>
   (\<exists>l' st'. msi_step pf0 [''NAME  test'' @ [CHR 0x0A], ''HORIZONTAL 2'' @ [CHR 0x0A],
                 ''0 1'' @ [CHR 0x0A], ''1 2'' @ [CHR 0x0A]] 1
                 (initial_state\<lparr>optional_gain_value := Some 10\<rparr>) = Inr (l', st') \<and>
              TransData st' = Some [9, 8] \<and> Magnitude (Horizontal st') = Some [9, 8])"
proof -
  let ?L = "[''NAME  test'' @ [CHR 0x0A], ''HORIZONTAL 2'' @ [CHR 0x0A],
             ''0 1'' @ [CHR 0x0A], ''1 2'' @ [CHR 0x0A]]"
  let ?st = "initial_state\<lparr>optional_gain_value := Some 10\<rparr>"
  let ?st' = "initial_state\<lparr>optional_gain_value := Some 10, count_n := 1,
                TransData := Some [9, 8],
                Horizontal := empty_slice\<lparr>Azimuth := Some [0, 1], Magnitude := Some [9, 8]\<rparr>\<rparr>"
  have a: "(1::nat) < length ?L" by simp
  have b: "section_header (?L ! 1)" by (simp add: str_defs)
  have c0: "\<not> gain_line (?L ! 0)" by (simp add: str_defs)
  then have c: "\<forall>j<1. \<not> gain_line (?L ! j)" by simp
  note t = section_without_gain_raises [OF a b c, of pf0]
  from t have d: "\<exists>e. msiread pf0 ?L = Inl (RuntimeError e)" by (rule conjunct1)
  from t have "\<forall>st. optional_gain_value st = None \<and> TransData st = None \<longrightarrow>
               msi_step pf0 ?L 1 st = Inl PyUnboundLocalError"
    by (rule conjunct1 [OF conjunct2])
  then have e: "msi_step pf0 ?L 1 initial_state = Inl PyUnboundLocalError"
    by (simp add: initial_state_def)
  have s: "msi_step pf0 ?L 1 ?st = Inr (4, ?st')"
    by (simp add: msi_step_def msi_dispatch_def Let_def str_defs pf0_def initial_state_def
          get_scalar_numeric_value_def)
  have x: "fst (get_xy_coords pf0 (drop (1 + 1) ?L) (1 + 1) []) = [(0, 1), (1, 2)]"
    by (simp add: Let_def str_defs pf0_def)
  have g: "optional_gain_value ?st = Some 10" by simp
  from t have "\<forall>st g l' st'.
            optional_gain_value st = Some g \<and> msi_step pf0 ?L 1 st = Inr (l', st') \<longrightarrow>
            TransData st' =
              Some (map (\<lambda>d. g - snd d) (fst (get_xy_coords pf0 (drop (1 + 1) ?L) (1 + 1) []))) \<and>
            (if first_word_of (?L ! 1) = ''horizontal''
             then Magnitude (Horizontal st') = TransData st'
             else Magnitude (Vertical st') = TransData st')"
    by (rule conjunct2 [OF conjunct2])
  from this [rule_format, OF conjI [OF g s]]
  have "TransData ?st' = Some [9, 8] \<and> Magnitude (Horizontal ?st') = Some [9, 8]"
    unfolding x by (simp add: str_defs)
  with s have f: "\<exists>l' st'. msi_step pf0 ?L 1 ?st = Inr (l', st') \<and>
              TransData st' = Some [9, 8] \<and> Magnitude (Horizontal st') = Some [9, 8]"
    by blast
  show ?thesis by (intro conjI a b c0 d e f)
qed

text \<open>
  For comparison, the same data after a gain line: the reader returns, with each
  magnitude the gain minus the value of the data line.
\<close>

lemma msiread_with_gain:
  "msiread pf0 [''GAIN 10 dBi'' @ [CHR 0x0A], ''HORIZONTAL 2'' @ [CHR 0x0A],
           ''0 1'' @ [CHR 0x0A], ''1 2'' @ [CHR 0x0A]]
   = Inr (empty_slice\<lparr>Azimuth := Some [0, 1], Magnitude := Some [9, 8], Units := Some ''dBi''\<rparr>,
          empty_slice\<lparr>Units := Some ''dBi''\<rparr>,
          [''gain'' \<mapsto> OGain (Some 10) ''dBi''])"
  by (simp add: msiread_def msi_loop.simps msi_step_def msi_dispatch_def Let_def str_defs pf0_def
        initial_state_def get_scalar_numeric_value_def get_value_with_unit_def empty_slice_def)

end
